theory Spec2Isabelle
  imports Main "HOL-Library.AList"
begin

section \<open>Data model of the session server\<close>

text \<open>
  The server keeps its state in module-level JavaScript \<^verbatim>\<open>Map\<close>s and one array.
  A \<^verbatim>\<open>Map\<close> iterates in insertion order, \<^verbatim>\<open>set\<close> on a present key replaces the
  value in place and on an absent key appends, \<^verbatim>\<open>delete\<close> removes the entry. An
  association list with \<open>AList.update\<close>, \<open>AList.delete\<close> and \<open>map_of\<close> behaves
  the same way, so every \<^verbatim>\<open>Map\<close> is an association list here.

  The model follows the server with accounts (it has the ready votes and the three
  login paths). The other server file is its earlier version: the same handlers without
  accounts and without ready votes, with only the guest login, with result messages that
  carry no choices and no opponent name, and with the same \<^verbatim>\<open>matchQuickPlayers\<close>,
  \<^verbatim>\<open>removePlayerFromMatch\<close> and \<^verbatim>\<open>getResult\<close>.

  Display names, lobby identifiers and choices are JavaScript strings. The
  conditions of the source test them for truthiness: the empty string is falsy,
  every other string is truthy, \<^verbatim>\<open>null\<close> and \<^verbatim>\<open>undefined\<close> are falsy.
  A connection handle (\<^verbatim>\<open>ws\<close>) is opaque; it is a number here.
\<close>

type_synonym socket = nat
type_synonym name = string

record player =
  ws :: socket
  choice :: "string option"

record game =
  host :: name
  guest :: "name option"

record auth_user =
  userId :: string
  token :: string
  sock :: socket

text \<open>
  Outbound messages. The human-readable \<^verbatim>\<open>message\<close> field of a result or of an
  \<^verbatim>\<open>opponent_left\<close> message is left out; where the message text is the only thing
  that tells two messages of one type apart (\<^verbatim>\<open>login_error\<close>, \<^verbatim>\<open>error\<close>) it
  is kept as a tag: \<open>PseudoTaken\<close> is "Ce pseudo est deja utilise. Veuillez en choisir
  un autre.", \<open>SessionExpired\<close> is "Session expiree, veuillez vous reconnecter",
  \<open>NoSuchGame\<close> is "Cette partie privee n'existe pas ou a ete fermee.", \<open>OwnGame\<close> is
  "Vous ne pouvez pas rejoindre votre propre partie." and \<open>GameFull\<close> is "Cette partie
  privee est deja complete.". The payload of a \<^verbatim>\<open>ranking\<close> message is the result of
  a database query and is left out as well.
\<close>

datatype login_error_text = PseudoTaken | SessionExpired | AuthMessage string

datatype error_text = NoSuchGame | OwnGame | GameFull

datatype msg =
    LoginError login_error_text
  | LoginSuccess "string option" "string option"
  | OnlineCount nat
  | Ranking
  | PrivateGameCreated string
  | ErrorMsg error_text
  | GameJoined name
  | GameResult string string string name
  | StartNewRound
  | OpponentLeft

text \<open>
  \<open>LoginSuccess u t\<close> carries the optional \<^verbatim>\<open>username\<close> and \<^verbatim>\<open>token\<close> fields;
  \<open>GameResult r pc oc on\<close> carries \<^verbatim>\<open>result\<close>, \<^verbatim>\<open>playerChoice\<close>,
  \<^verbatim>\<open>opponentChoice\<close> and \<^verbatim>\<open>opponentName\<close>.
\<close>

datatype js_error = TypeError

record state =
  players :: "(name \<times> player) list"
  playerModes :: "(name \<times> string) list"
  quickMatchQueue :: "name list"
  privateGames :: "(string \<times> game) list"
  matches :: "(name \<times> name) list"
  playerReadyState :: "(name \<times> bool) list"
  authenticatedUsers :: "(name \<times> auth_user) list"
  db_players :: "(name \<times> int) list"

text \<open>
  \<open>db_players\<close> is the table \<^verbatim>\<open>players (username TEXT PRIMARY KEY, score INTEGER)\<close>
  of the database. A handler returns the state it leaves, the messages it sent (with the
  socket each went to, in sending order) and the exception that ended it, if one did:
  reading \<^verbatim>\<open>.ws\<close> of \<^verbatim>\<open>players.get(x)\<close> for an unregistered \<open>x\<close> throws a
  \<^verbatim>\<open>TypeError\<close>, and what was mutated and sent before stays.
\<close>

record reply =
  st :: state
  sent :: "(socket \<times> msg) list"
  exc :: "js_error option"

text \<open>The variables of one connection's closure.\<close>

record conn =
  currentPlayer :: "name option"
  currentUserId :: "string option"
  currentToken :: "string option"

record login_data =
  d_token :: "string option"
  d_username :: string
  d_password :: "string option"

text \<open>
  Authentication is an external collaborator: the outcome of
  \<^verbatim>\<open>authManager.verifyToken\<close> or \<^verbatim>\<open>authManager.login\<close> is an argument of the
  login handler. (\<^verbatim>\<open>verifyToken\<close> resolves without a token; the handler does not
  read \<open>res_token\<close> on that path.)
\<close>

record auth_data =
  res_userId :: string
  res_username :: string
  res_token :: string

datatype auth_result = Resolved auth_data | Rejected string

definition initial_state :: state where
  "initial_state =
     \<lparr>players = [], playerModes = [], quickMatchQueue = [], privateGames = [],
      matches = [], playerReadyState = [], authenticatedUsers = [], db_players = []\<rparr>"

section \<open>Helper functions of the source\<close>

definition has :: "('k \<times> 'v) list \<Rightarrow> 'k \<Rightarrow> bool" where
  "has m k = (map_of m k \<noteq> None)"

definition truthy :: "string \<Rightarrow> bool" where
  "truthy x = (x \<noteq> [])"

definition truthy_opt :: "string option \<Rightarrow> bool" where
  "truthy_opt x = (case x of None \<Rightarrow> False | Some v \<Rightarrow> truthy v)"

text \<open>Truthiness of \<^verbatim>\<open>playerReadyState.get(p)\<close>: \<^verbatim>\<open>undefined\<close> and \<^verbatim>\<open>false\<close> are falsy.\<close>

definition truthy_ready :: "bool option \<Rightarrow> bool" where
  "truthy_ready x = (x = Some True)"

definition valid_choices :: "string list" where
  "valid_choices = [''pierre'', ''feuille'', ''ciseaux'']"

definition getResult :: "string \<Rightarrow> string \<Rightarrow> string" where
  "getResult choice1 choice2 =
     (if choice1 = choice2 then ''draw''
      else if (choice1 = ''pierre'' \<and> choice2 = ''ciseaux'') \<or>
              (choice1 = ''feuille'' \<and> choice2 = ''pierre'') \<or>
              (choice1 = ''ciseaux'' \<and> choice2 = ''feuille'')
      then ''player1''
      else ''player2'')"

text \<open>
  \<^verbatim>\<open>matches.set(a, b); matches.set(b, a);\<close> the pairing step, written out in
  \<^verbatim>\<open>matchQuickPlayers\<close> and in the \<^verbatim>\<open>join_private_game\<close> handler, each time followed
  by the reset of both ready votes.
\<close>

definition set_match :: "name \<Rightarrow> name \<Rightarrow> (name \<times> name) list \<Rightarrow> (name \<times> name) list" where
  "set_match a b m = AList.update b a (AList.update a b m)"

definition set_ready_false :: "name \<Rightarrow> name \<Rightarrow> (name \<times> bool) list \<Rightarrow> (name \<times> bool) list" where
  "set_ready_false a b r = AList.update b False (AList.update a False r)"

definition removePlayerFromMatch :: "name \<Rightarrow> state \<Rightarrow> state" where
  "removePlayerFromMatch p s =
     (case map_of (matches s) p of
        None \<Rightarrow> s
      | Some opponent \<Rightarrow>
          if truthy opponent then
            (let m1 = AList.delete p (matches s) in
             s\<lparr>matches := (if opponent \<noteq> ''IA'' then AList.delete opponent m1 else m1)\<rparr>)
          else s)"

definition broadcastOnlineCount :: "state \<Rightarrow> (socket \<times> msg) list" where
  "broadcastOnlineCount s =
     map (\<lambda>(n, p). (ws p, OnlineCount (length (players s)))) (players s)"

definition broadcastRanking :: "state \<Rightarrow> (socket \<times> msg) list" where
  "broadcastRanking s = map (\<lambda>(n, p). (ws p, Ranking)) (players s)"

text \<open>
  \<^verbatim>\<open>UPDATE players SET score = score + 1 WHERE username = ?\<close>: the row of the name,
  if there is one. The column is an SQLite \<^verbatim>\<open>INTEGER\<close>, a signed 64-bit integer.
  Adding 1 to the largest one, \<open>2 ^ 63 - 1\<close>, overflows into the \<^verbatim>\<open>REAL\<close> \<open>2 ^ 63\<close>,
  which the column keeps as a \<^verbatim>\<open>REAL\<close>; adding 1 to a \<^verbatim>\<open>REAL\<close> of that size
  gives the same \<^verbatim>\<open>REAL\<close> again. A score from \<open>- (2 ^ 63)\<close> to \<open>2 ^ 63 - 1\<close> stands
  for that \<^verbatim>\<open>INTEGER\<close> here and any other score for the \<^verbatim>\<open>REAL\<close> of that value;
  rows are inserted with score 0.
\<close>

definition sqlite_add_one :: "int \<Rightarrow> int" where
  "sqlite_add_one sc = (if - (2 ^ 63) \<le> sc \<and> sc < 2 ^ 63 then sc + 1 else sc)"

definition increment_score :: "name \<Rightarrow> state \<Rightarrow> state" where
  "increment_score n s = s\<lparr>db_players := AList.map_entry n sqlite_add_one (db_players s)\<rparr>"

text \<open>
  The loop of \<^verbatim>\<open>matchQuickPlayers\<close>. The first argument is the queue, which the
  state holds too; each round shifts two names off it.
\<close>

fun matchLoop :: "name list \<Rightarrow> state \<Rightarrow> state \<times> (socket \<times> msg) list" where
  "matchLoop (player1 # player2 # rest) s =
     (let s1 = s\<lparr>quickMatchQueue := rest\<rparr> in
      case map_of (players s1) player1 of
        None \<Rightarrow> matchLoop rest s1
      | Some p1 \<Rightarrow>
          (case map_of (players s1) player2 of
             None \<Rightarrow> matchLoop rest s1
           | Some p2 \<Rightarrow>
               (let s2 = s1\<lparr>matches := set_match player1 player2 (matches s1),
                            playerReadyState :=
                              set_ready_false player1 player2 (playerReadyState s1)\<rparr>;
                    r = matchLoop rest s2
                in (fst r,
                    (ws p1, GameJoined player2) # (ws p2, GameJoined player1) # snd r))))"
| "matchLoop q s = (s, [])"

definition matchQuickPlayers :: "state \<Rightarrow> reply" where
  "matchQuickPlayers s =
     (let r = matchLoop (quickMatchQueue s) s in \<lparr>st = fst r, sent = snd r, exc = None\<rparr>)"

section \<open>Message handlers\<close>

text \<open>
  Every handler but \<open>login\<close> is modelled for a connection whose \<^verbatim>\<open>currentPlayer\<close>
  holds a string; it is the first argument. A handler that ends normally has
  \<open>exc = None\<close>.
\<close>

definition returns :: "state \<Rightarrow> reply" where
  "returns s = \<lparr>st = s, sent = [], exc = None\<rparr>"

definition login_token ::
  "socket \<Rightarrow> conn \<Rightarrow> string \<Rightarrow> auth_result \<Rightarrow> state \<Rightarrow> conn \<times> reply" where
  "login_token w c t auth s =
     (case auth of
        Rejected m \<Rightarrow> (c, \<lparr>st = s, sent = [(w, LoginError SessionExpired)], exc = None\<rparr>)
      | Resolved r \<Rightarrow>
          (let cur = res_username r;
               s1 = s\<lparr>authenticatedUsers :=
                        AList.update cur \<lparr>userId = res_userId r, token = t, sock = w\<rparr>
                          (authenticatedUsers s)\<rparr>;
               s2 = s1\<lparr>players := AList.update cur \<lparr>ws = w, choice = None\<rparr> (players s1)\<rparr>
           in (\<lparr>currentPlayer = Some cur, currentUserId = Some (res_userId r),
                currentToken = Some t\<rparr>,
               \<lparr>st = s2,
                sent = (w, LoginSuccess (Some cur) None) #
                       broadcastOnlineCount s2 @ broadcastRanking s2,
                exc = None\<rparr>)))"

definition login_password ::
  "socket \<Rightarrow> conn \<Rightarrow> auth_result \<Rightarrow> state \<Rightarrow> conn \<times> reply" where
  "login_password w c auth s =
     (case auth of
        Rejected m \<Rightarrow> (c, \<lparr>st = s, sent = [(w, LoginError (AuthMessage m))], exc = None\<rparr>)
      | Resolved r \<Rightarrow>
          (let cur = res_username r;
               s1 = s\<lparr>authenticatedUsers :=
                        AList.update cur
                          \<lparr>userId = res_userId r, token = res_token r, sock = w\<rparr>
                          (authenticatedUsers s)\<rparr>;
               s2 = s1\<lparr>players := AList.update cur \<lparr>ws = w, choice = None\<rparr> (players s1)\<rparr>
           in (\<lparr>currentPlayer = Some cur, currentUserId = Some (res_userId r),
                currentToken = Some (res_token r)\<rparr>,
               \<lparr>st = s2,
                sent = (w, LoginSuccess (Some cur) (Some (res_token r))) #
                       broadcastOnlineCount s2 @ broadcastRanking s2,
                exc = None\<rparr>)))"

text \<open>
  The guest branch assigns \<^verbatim>\<open>currentPlayer\<close> before it looks the name up. The
  callback of the \<^verbatim>\<open>SELECT\<close> inserts a row with score 0 when the name has none; the
  callback of the ranking query runs after the synchronous part of the handler, so the
  ranking messages come last.
\<close>

definition login_guest :: "socket \<Rightarrow> conn \<Rightarrow> name \<Rightarrow> state \<Rightarrow> conn \<times> reply" where
  "login_guest w c n s =
     (let c1 = c\<lparr>currentPlayer := Some n\<rparr> in
      if has (players s) n then
        (c1, \<lparr>st = s, sent = [(w, LoginError PseudoTaken)], exc = None\<rparr>)
      else
        (let s1 = s\<lparr>players := AList.update n \<lparr>ws = w, choice = None\<rparr> (players s)\<rparr>;
             s2 = s1\<lparr>db_players :=
                        (if map_of (db_players s1) n = None then db_players s1 @ [(n, 0)]
                         else db_players s1)\<rparr>
         in (c1, \<lparr>st = s2,
                  sent = (w, LoginSuccess None None) #
                         broadcastOnlineCount s2 @ broadcastRanking s2,
                  exc = None\<rparr>)))"

definition login ::
  "socket \<Rightarrow> conn \<Rightarrow> login_data \<Rightarrow> auth_result \<Rightarrow> state \<Rightarrow> conn \<times> reply" where
  "login w c d auth s =
     (case d_token d of
        Some t \<Rightarrow>
          if truthy t then login_token w c t auth s
          else if truthy (d_username d) \<and> truthy_opt (d_password d)
               then login_password w c auth s
               else login_guest w c (d_username d) s
      | None \<Rightarrow>
          if truthy (d_username d) \<and> truthy_opt (d_password d)
          then login_password w c auth s
          else login_guest w c (d_username d) s)"

definition select_mode :: "name \<Rightarrow> string \<Rightarrow> state \<Rightarrow> reply" where
  "select_mode cur mode s = returns (s\<lparr>playerModes := AList.update cur mode (playerModes s)\<rparr>)"

definition quick_match :: "name \<Rightarrow> state \<Rightarrow> reply" where
  "quick_match cur s =
     matchQuickPlayers
       (if cur \<in> set (quickMatchQueue s) then s
        else s\<lparr>quickMatchQueue := quickMatchQueue s @ [cur]\<rparr>)"

text \<open>The identifier \<^verbatim>\<open>uuidv4()\<close> draws is an argument.\<close>

definition create_private_game :: "name \<Rightarrow> string \<Rightarrow> state \<Rightarrow> reply" where
  "create_private_game cur gameId s =
     (let s1 = s\<lparr>privateGames :=
                  AList.update gameId \<lparr>host = cur, guest = None\<rparr> (privateGames s)\<rparr>
      in case map_of (players s1) cur of
           None \<Rightarrow> \<lparr>st = s1, sent = [], exc = Some TypeError\<rparr>
         | Some me \<Rightarrow> \<lparr>st = s1, sent = [(ws me, PrivateGameCreated gameId)], exc = None\<rparr>)"

definition send_error :: "name \<Rightarrow> error_text \<Rightarrow> state \<Rightarrow> reply" where
  "send_error cur e s =
     (case map_of (players s) cur of
        None \<Rightarrow> \<lparr>st = s, sent = [], exc = Some TypeError\<rparr>
      | Some me \<Rightarrow> \<lparr>st = s, sent = [(ws me, ErrorMsg e)], exc = None\<rparr>)"

definition join_private_game :: "name \<Rightarrow> string \<Rightarrow> state \<Rightarrow> reply" where
  "join_private_game cur gameId s =
     (case map_of (privateGames s) gameId of
        None \<Rightarrow> send_error cur NoSuchGame s
      | Some g \<Rightarrow>
          if host g = cur then send_error cur OwnGame s
          else if truthy_opt (guest g) then send_error cur GameFull s
          else
            (let s1 = s\<lparr>privateGames :=
                         AList.update gameId (g\<lparr>guest := Some cur\<rparr>) (privateGames s),
                       matches := set_match (host g) cur (matches s),
                       playerReadyState :=
                         set_ready_false (host g) cur (playerReadyState s)\<rparr>
             in case map_of (players s1) (host g) of
                  None \<Rightarrow> \<lparr>st = s1, sent = [], exc = Some TypeError\<rparr>
                | Some h \<Rightarrow>
                    (case map_of (players s1) cur of
                       None \<Rightarrow>
                         \<lparr>st = s1, sent = [(ws h, GameJoined cur)], exc = Some TypeError\<rparr>
                     | Some me \<Rightarrow>
                         \<lparr>st = s1,
                          sent = [(ws h, GameJoined cur), (ws me, GameJoined (host g))],
                          exc = None\<rparr>)))"

text \<open>
  The resolution of a round, once both choices are in: the two result messages, the
  score update, the reset of both choices, the ranking broadcast.
\<close>

definition resolve_round ::
  "name \<Rightarrow> player \<Rightarrow> string \<Rightarrow> name \<Rightarrow> player \<Rightarrow> string \<Rightarrow> state \<Rightarrow> reply" where
  "resolve_round cur me c opponent opp opponentChoice s =
     (let result = getResult c opponentChoice;
          s1 = (if result = ''draw'' then s
                else if result = ''player1'' then increment_score cur s
                else increment_score opponent s);
          out = (if result = ''draw'' then
                   [(ws me, GameResult ''draw'' c opponentChoice opponent),
                    (ws opp, GameResult ''draw'' opponentChoice c cur)]
                 else if result = ''player1'' then
                   [(ws me, GameResult ''player'' c opponentChoice opponent),
                    (ws opp, GameResult ''opponent'' opponentChoice c cur)]
                 else
                   [(ws me, GameResult ''opponent'' c opponentChoice opponent),
                    (ws opp, GameResult ''player'' opponentChoice c cur)]);
          s2 = s1\<lparr>players :=
                    AList.update opponent (opp\<lparr>choice := None\<rparr>)
                      (AList.update cur (me\<lparr>choice := None\<rparr>) (players s1))\<rparr>
      in \<lparr>st = s2, sent = out @ broadcastRanking s2, exc = None\<rparr>)"

definition play_online :: "name \<Rightarrow> string \<Rightarrow> state \<Rightarrow> reply" where
  "play_online cur c s =
     (if c \<notin> set valid_choices then returns s
      else
        case map_of (players s) cur of
          None \<Rightarrow> returns s
        | Some me0 \<Rightarrow>
            (let me = me0\<lparr>choice := Some c\<rparr>;
                 s1 = s\<lparr>players := AList.update cur me (players s)\<rparr>
             in case map_of (matches s1) cur of
                  None \<Rightarrow> returns s1
                | Some opponent \<Rightarrow>
                    if truthy opponent then
                      (case map_of (players s1) opponent of
                         None \<Rightarrow> returns s1
                       | Some opp \<Rightarrow>
                           (case choice opp of
                              None \<Rightarrow> returns s1
                            | Some opponentChoice \<Rightarrow>
                                if truthy opponentChoice
                                then resolve_round cur me c opponent opp opponentChoice s1
                                else returns s1))
                    else returns s1))"

text \<open>The payload \<^verbatim>\<open>data.ready\<close> is a boolean.\<close>

definition ready_for_next_round :: "name \<Rightarrow> bool \<Rightarrow> state \<Rightarrow> reply" where
  "ready_for_next_round cur ready s =
     (let s1 = s\<lparr>playerReadyState := AList.update cur ready (playerReadyState s)\<rparr>;
          rs = playerReadyState s1
      in case map_of (matches s1) cur of
           None \<Rightarrow> returns s1
         | Some opponent \<Rightarrow>
             if truthy opponent \<and> opponent \<noteq> ''IA'' then
               (case map_of (players s1) opponent of
                  None \<Rightarrow> returns s1
                | Some opp \<Rightarrow>
                    if truthy_ready (map_of rs cur) \<and> truthy_ready (map_of rs opponent) then
                      (case map_of (players s1) cur of
                         None \<Rightarrow> \<lparr>st = s1, sent = [], exc = Some TypeError\<rparr>
                       | Some me \<Rightarrow>
                           \<lparr>st = s1\<lparr>playerReadyState :=
                                      AList.update opponent False (AList.update cur False rs)\<rparr>,
                            sent = [(ws me, StartNewRound), (ws opp, StartNewRound)],
                            exc = None\<rparr>)
                    else if map_of rs cur \<noteq> map_of rs opponent then
                      (if truthy_ready (map_of rs cur) then
                         (case map_of (players s1) cur of
                            None \<Rightarrow> \<lparr>st = s1, sent = [], exc = Some TypeError\<rparr>
                          | Some me \<Rightarrow> \<lparr>st = s1, sent = [(ws me, OpponentLeft)], exc = None\<rparr>)
                       else returns s1)
                    else returns s1)
             else returns s1)"

text \<open>
  The notification that opens \<^verbatim>\<open>leave_game\<close>, \<^verbatim>\<open>logout\<close> and the \<^verbatim>\<open>close\<close>
  handler alike.
\<close>

definition notify_opponent_left :: "name \<Rightarrow> state \<Rightarrow> (socket \<times> msg) list" where
  "notify_opponent_left cur s =
     (case map_of (matches s) cur of
        None \<Rightarrow> []
      | Some opponent \<Rightarrow>
          if truthy opponent \<and> opponent \<noteq> ''IA'' then
            (case map_of (players s) opponent of
               None \<Rightarrow> []
             | Some opp \<Rightarrow> [(ws opp, OpponentLeft)])
          else [])"

text \<open>
  \<^verbatim>\<open>indexOf\<close> and \<^verbatim>\<open>splice(queueIndex, 1)\<close> take the first occurrence of the name
  out of the queue; the \<^verbatim>\<open>for\<close> loop deletes every lobby the name hosts.
\<close>

definition leave_queue_and_lobbies :: "name \<Rightarrow> state \<Rightarrow> state" where
  "leave_queue_and_lobbies cur s =
     s\<lparr>quickMatchQueue := remove1 cur (quickMatchQueue s),
       privateGames := filter (\<lambda>(gameId, g). host g \<noteq> cur) (privateGames s)\<rparr>"

definition leave_game :: "name \<Rightarrow> state \<Rightarrow> reply" where
  "leave_game cur s =
     \<lparr>st = leave_queue_and_lobbies cur (removePlayerFromMatch cur s),
      sent = notify_opponent_left cur s,
      exc = None\<rparr>"

definition on_close :: "name option \<Rightarrow> state \<Rightarrow> reply" where
  "on_close c s =
     (case c of
        None \<Rightarrow> returns s
      | Some cur \<Rightarrow>
          if truthy cur then
            (let out = notify_opponent_left cur s;
                 s1 = s\<lparr>players := AList.delete cur (players s),
                        playerModes := AList.delete cur (playerModes s),
                        playerReadyState := AList.delete cur (playerReadyState s),
                        authenticatedUsers := AList.delete cur (authenticatedUsers s)\<rparr>;
                 s2 = leave_queue_and_lobbies cur (removePlayerFromMatch cur s1)
             in \<lparr>st = s2, sent = out @ broadcastOnlineCount s2, exc = None\<rparr>)
          else returns s)"

section \<open>Example states\<close>

text \<open>Two registered players matched with each other, no choice pending.\<close>

definition alice_bob_matched :: state where
  "alice_bob_matched =
     \<lparr>players = [(''alice'', \<lparr>ws = 1, choice = None\<rparr>), (''bob'', \<lparr>ws = 2, choice = None\<rparr>)],
      playerModes = [], quickMatchQueue = [], privateGames = [],
      matches = [(''alice'', ''bob''), (''bob'', ''alice'')],
      playerReadyState = [(''alice'', False), (''bob'', False)],
      authenticatedUsers = [], db_players = [(''alice'', 0), (''bob'', 0)]\<rparr>"

text \<open>The same match after bob has submitted scissors.\<close>

definition bob_has_chosen :: state where
  "bob_has_chosen =
     alice_bob_matched
       \<lparr>players := [(''alice'', \<lparr>ws = 1, choice = None\<rparr>),
                    (''bob'', \<lparr>ws = 2, choice = Some ''ciseaux''\<rparr>)]\<rparr>"

text \<open>Three registered players; alice hosts the open lobby \<open>g1\<close>; nobody is matched.\<close>

definition lobby_open :: state where
  "lobby_open =
     \<lparr>players = [(''alice'', \<lparr>ws = 1, choice = None\<rparr>), (''bob'', \<lparr>ws = 2, choice = None\<rparr>),
                 (''carol'', \<lparr>ws = 3, choice = None\<rparr>)],
      playerModes = [], quickMatchQueue = [],
      privateGames = [(''g1'', \<lparr>host = ''alice'', guest = None\<rparr>)],
      matches = [], playerReadyState = [],
      authenticatedUsers = [], db_players = [(''alice'', 0), (''bob'', 0), (''carol'', 0)]\<rparr>"

text \<open>
  alice and bob are matched, and alice still hosts the open lobby \<open>g1\<close> created
  earlier; carol is registered and unmatched.
\<close>

definition host_already_matched :: state where
  "host_already_matched =
     \<lparr>players = [(''alice'', \<lparr>ws = 1, choice = None\<rparr>), (''bob'', \<lparr>ws = 2, choice = None\<rparr>),
                 (''carol'', \<lparr>ws = 3, choice = None\<rparr>)],
      playerModes = [], quickMatchQueue = [],
      privateGames = [(''g1'', \<lparr>host = ''alice'', guest = None\<rparr>)],
      matches = [(''alice'', ''bob''), (''bob'', ''alice'')],
      playerReadyState = [(''alice'', False), (''bob'', False)],
      authenticatedUsers = [], db_players = [(''alice'', 0), (''bob'', 0), (''carol'', 0)]\<rparr>"

text \<open>alice is registered and waits in the queue; nobody else is registered.\<close>

definition alice_waiting :: state where
  "alice_waiting =
     \<lparr>players = [(''alice'', \<lparr>ws = 1, choice = None\<rparr>)],
      playerModes = [], quickMatchQueue = [''alice''], privateGames = [],
      matches = [], playerReadyState = [],
      authenticatedUsers = [], db_players = [(''alice'', 0)]\<rparr>"

text \<open>
  A queue of five names of which bob is not registered (the handlers never leave more
  than one name waiting; the loop itself takes any queue).
\<close>

definition long_queue :: state where
  "long_queue =
     \<lparr>players = [(''alice'', \<lparr>ws = 1, choice = None\<rparr>), (''carol'', \<lparr>ws = 3, choice = None\<rparr>),
                 (''dave'', \<lparr>ws = 4, choice = None\<rparr>), (''erin'', \<lparr>ws = 5, choice = None\<rparr>)],
      playerModes = [],
      quickMatchQueue = [''alice'', ''bob'', ''carol'', ''dave'', ''erin''],
      privateGames = [], matches = [], playerReadyState = [],
      authenticatedUsers = [], db_players = []\<rparr>"

text \<open>
  alice is registered on socket 1 with a pending choice.
\<close>

definition alice_online :: state where
  "alice_online =
     \<lparr>players = [(''alice'', \<lparr>ws = 1, choice = Some ''pierre''\<rparr>)],
      playerModes = [], quickMatchQueue = [], privateGames = [],
      matches = [], playerReadyState = [],
      authenticatedUsers = [], db_players = [(''alice'', 0)]\<rparr>"

text \<open>
  alice is matched with a guest who logged in under the empty name on socket 2 and has
  submitted scissors.
\<close>

definition nameless_opponent :: state where
  "nameless_opponent =
     \<lparr>players = [(''alice'', \<lparr>ws = 1, choice = None\<rparr>),
                 ([], \<lparr>ws = 2, choice = Some ''ciseaux''\<rparr>)],
      playerModes = [], quickMatchQueue = [], privateGames = [],
      matches = [(''alice'', []), ([], ''alice'')],
      playerReadyState = [(''alice'', False), ([], False)],
      authenticatedUsers = [], db_players = [(''alice'', 0), ([], 0)]\<rparr>"

text \<open>
  The match of alice and bob, bob having submitted scissors, with the score of alice
  at \<open>2 ^ 63\<close>, where the column has turned into a \<^verbatim>\<open>REAL\<close>.
\<close>

definition score_at_limit :: state where
  "score_at_limit =
     bob_has_chosen\<lparr>db_players := [(''alice'', 9223372036854775808), (''bob'', 0)]\<rparr>"

section \<open>Notions of the specification\<close>

text \<open>
  The draining of the queue in the words of the specification: the two oldest entries
  are drawn together, again and again; a drawn pair is formed when both names are
  registered, and then each of the two is told the name of the other.
\<close>

fun drawn_pairs :: "name list \<Rightarrow> (name \<times> name) list" where
  "drawn_pairs (a # b # q) = (a, b) # drawn_pairs q"
| "drawn_pairs q = []"

definition formed_pairs :: "(name \<times> player) list \<Rightarrow> name list \<Rightarrow> (name \<times> name) list" where
  "formed_pairs ps q = filter (\<lambda>(a, b). has ps a \<and> has ps b) (drawn_pairs q)"

definition pair_messages :: "(name \<times> player) list \<Rightarrow> name \<times> name \<Rightarrow> (socket \<times> msg) list" where
  "pair_messages ps =
     (\<lambda>(a, b). case map_of ps a of
                  None \<Rightarrow> []
                | Some pa \<Rightarrow>
                    (case map_of ps b of
                       None \<Rightarrow> []
                     | Some pb \<Rightarrow> [(ws pa, GameJoined b), (ws pb, GameJoined a)]))"


section \<open>Events and runs\<close>

text \<open>
  The messages a connection can send, each with the value its closure holds in
  \<^verbatim>\<open>currentPlayer\<close> (any name: two connections can hold the same one), and the
  \<^verbatim>\<open>close\<close> event of the transport. A run handles the events one after the other;
  what a handler had mutated when it threw stays. The \<^verbatim>\<open>register\<close>, \<^verbatim>\<open>logout\<close>
  and \<^verbatim>\<open>play_ai\<close> messages are not modelled.
\<close>

datatype event =
    Login socket conn login_data auth_result
  | SelectMode name string
  | QuickMatch name
  | CreatePrivateGame name string
  | JoinPrivateGame name string
  | PlayOnline name string
  | ReadyForNextRound name bool
  | LeaveGame name
  | Close "name option"

fun handle :: "event \<Rightarrow> state \<Rightarrow> reply" where
  "handle (Login w c d auth) s = snd (login w c d auth s)"
| "handle (SelectMode cur mode) s = select_mode cur mode s"
| "handle (QuickMatch cur) s = quick_match cur s"
| "handle (CreatePrivateGame cur gameId) s = create_private_game cur gameId s"
| "handle (JoinPrivateGame cur gameId) s = join_private_game cur gameId s"
| "handle (PlayOnline cur c) s = play_online cur c s"
| "handle (ReadyForNextRound cur ready) s = ready_for_next_round cur ready s"
| "handle (LeaveGame cur) s = leave_game cur s"
| "handle (Close c) s = on_close c s"

fun run :: "event list \<Rightarrow> state \<Rightarrow> state" where
  "run [] s = s"
| "run (e # es) s = run es (st (handle e s))"

text \<open>A login message with a name only, from a connection that has not logged in.\<close>

definition guest_login :: "socket \<Rightarrow> name \<Rightarrow> event" where
  "guest_login w n =
     Login w \<lparr>currentPlayer = None, currentUserId = None, currentToken = None\<rparr>
       \<lparr>d_token = None, d_username = n, d_password = None\<rparr> (Rejected [])"

text \<open>An event that creates a lobby under the identifier \<open>gid\<close>.\<close>

fun creates :: "string \<Rightarrow> event \<Rightarrow> bool" where
  "creates gid (CreatePrivateGame cur gameId) = (gameId = gid)"
| "creates gid e = False"

text \<open>The lobby \<open>gid\<close> is deleted or still is the record \<open>L\<close>.\<close>

definition lobby_gone_or :: "string \<Rightarrow> game \<Rightarrow> state \<Rightarrow> bool" where
  "lobby_gone_or gid L s =
     (case map_of (privateGames s) gid of None \<Rightarrow> True | Some g \<Rightarrow> g = L)"

text \<open>
  What the containers of the source guarantee by construction: the queue holds a name
  at most once, a \<^verbatim>\<open>Map\<close> holds a key at most once, and nobody is matched with
  themselves.
\<close>

definition well_formed :: "state \<Rightarrow> bool" where
  "well_formed s =
     (distinct (quickMatchQueue s) \<and> distinct (map fst (privateGames s)) \<and>
      list_all (\<lambda>(a, b). a \<noteq> b) (matches s))"

section \<open>Winner determination\<close>

text \<open>
  C4: identical valid symbols draw; rock (pierre) beats scissors (ciseaux), scissors
  beats paper (feuille), paper beats rock, each reported as a win of the first side;
  and for two distinct valid symbols the first side wins one order exactly when the
  second side wins the other order.
\<close>

theorem getResult_rules:
  assumes "x \<in> set valid_choices" and "y \<in> set valid_choices"
  shows "getResult x x = ''draw'' \<and>
         getResult ''pierre'' ''ciseaux'' = ''player1'' \<and>
         getResult ''ciseaux'' ''feuille'' = ''player1'' \<and>
         getResult ''feuille'' ''pierre'' = ''player1'' \<and>
         (x \<noteq> y \<longrightarrow> (getResult x y = ''player1'') = (getResult y x = ''player2''))"
  using assms by (auto simp: getResult_def valid_choices_def)

theorem getResult_rules_witness:
  "''pierre'' \<in> set valid_choices \<and> ''feuille'' \<in> set valid_choices \<and>
   ''pierre'' \<noteq> ''feuille'' \<and>
   getResult ''pierre'' ''pierre'' = ''draw'' \<and>
   getResult ''pierre'' ''feuille'' = ''player2'' \<and>
   getResult ''feuille'' ''pierre'' = ''player1''"
proof -
  have v: "''pierre'' \<in> set valid_choices" "''feuille'' \<in> set valid_choices"
    by (simp_all add: valid_choices_def)
  from getResult_rules [OF v] have
    "getResult ''pierre'' ''pierre'' = ''draw''"
    "getResult ''feuille'' ''pierre'' = ''player1''"
    "(getResult ''pierre'' ''feuille'' = ''player1'') = (getResult ''feuille'' ''pierre'' = ''player2'')"
    by simp_all
  moreover have "getResult ''pierre'' ''feuille'' = ''player2''"
    by (simp add: getResult_def)
  ultimately show ?thesis using v by simp
qed

section \<open>Rejected choices\<close>

text \<open>
  C8, as the code has it: a \<^verbatim>\<open>play_online\<close> submission whose symbol is not one of
  the three recognized symbols mutates no state (no pending choice stored, no
  resolution, no score change) and sends no message to anyone, the sender included;
  the handler only logs the symbol and returns.
\<close>

theorem play_online_invalid_choice:
  assumes "c \<notin> set valid_choices"
  shows "play_online cur c s = \<lparr>st = s, sent = [], exc = None\<rparr>"
  using assms by (simp add: play_online_def returns_def)

theorem play_online_invalid_choice_witness:
  "''lezard'' \<notin> set valid_choices \<and>
   play_online ''bob'' ''lezard'' bob_has_chosen =
     \<lparr>st = bob_has_chosen, sent = [], exc = None\<rparr>"
proof -
  have v: "''lezard'' \<notin> set valid_choices"
    by (simp add: valid_choices_def)
  from play_online_invalid_choice [OF v] v show ?thesis by simp
qed

text \<open>
  C8 as stated fails: alice is registered on socket 1 and submits the unrecognized
  symbol "puits"; nothing is sent, so alice receives no error notification.
\<close>

theorem invalid_choice_not_notified:
  "''puits'' \<notin> set valid_choices \<and>
   map_of (players alice_bob_matched) ''alice'' = Some \<lparr>ws = 1, choice = None\<rparr> \<and>
   sent (play_online ''alice'' ''puits'' alice_bob_matched) = []"
  by (simp add: play_online_def returns_def valid_choices_def alice_bob_matched_def)

section \<open>Round resolution\<close>

text \<open>
  C3, as the code has it: in an online round (the sender \<open>cur\<close> is registered and
  matched with another registered participant \<open>opponent\<close> whose name is not empty:
  the guard of the handler; nobody is matched with themselves,
  \<open>well_formed_no_self_match\<close> below), a valid submission that finds the opponent's
  pending choice empty only stores the sender's choice: no message is sent and no score
  changes. A submission that finds the opponent's pending choice \<open>oc\<close> resolves the
  round: the sender and the opponent each get their result message (then the ranking is
  broadcast); when the round is decisive the one \<^verbatim>\<open>UPDATE\<close> is applied to the score
  row of the winner, which raises a score in the 64-bit range by exactly one and leaves a
  score beyond it as it is, and no other row changes; both pending choices are cleared,
  and the match table, the ready votes, the queue and the lobbies are as before.
\<close>

theorem play_online_round:
  assumes valid: "c \<in> set valid_choices"
    and me: "map_of (players s) cur = Some me"
    and m: "map_of (matches s) cur = Some opponent"
    and ne: "opponent \<noteq> cur"
    and tr: "truthy opponent"
    and opp: "map_of (players s) opponent = Some opp"
  shows "(\<not> truthy_opt (choice opp) \<longrightarrow>
            play_online cur c s =
              \<lparr>st = s\<lparr>players := AList.update cur (me\<lparr>choice := Some c\<rparr>) (players s)\<rparr>,
               sent = [], exc = None\<rparr>) \<and>
         (choice opp = Some oc \<and> truthy oc \<longrightarrow>
            (let r = play_online cur c s;
                 res = getResult c oc;
                 winner = (if res = ''player1'' then cur else opponent)
             in exc r = None \<and>
                sent r =
                  [(ws me, GameResult (if res = ''draw'' then ''draw''
                                       else if res = ''player1'' then ''player''
                                       else ''opponent'') c oc opponent),
                   (ws opp, GameResult (if res = ''draw'' then ''draw''
                                        else if res = ''player1'' then ''opponent''
                                        else ''player'') oc c cur)] @
                  broadcastRanking (st r) \<and>
                (\<forall>n. map_of (db_players (st r)) n =
                       (if res \<noteq> ''draw'' \<and> n = winner
                        then map_option sqlite_add_one (map_of (db_players s) n)
                        else map_of (db_players s) n)) \<and>
                (\<forall>sc. res \<noteq> ''draw'' \<and> map_of (db_players s) winner = Some sc \<and>
                       - (2 ^ 63) \<le> sc \<and> sc < 2 ^ 63 \<longrightarrow>
                       map_of (db_players (st r)) winner = Some (sc + 1)) \<and>
                (\<forall>sc. res \<noteq> ''draw'' \<and> map_of (db_players s) winner = Some sc \<and>
                       2 ^ 63 \<le> sc \<longrightarrow>
                       map_of (db_players (st r)) winner = Some sc) \<and>
                map_of (players (st r)) cur = Some (me\<lparr>choice := None\<rparr>) \<and>
                map_of (players (st r)) opponent = Some (opp\<lparr>choice := None\<rparr>) \<and>
                (\<forall>n. n \<noteq> cur \<and> n \<noteq> opponent \<longrightarrow>
                       map_of (players (st r)) n = map_of (players s) n) \<and>
                matches (st r) = matches s \<and>
                playerReadyState (st r) = playerReadyState s \<and>
                quickMatchQueue (st r) = quickMatchQueue s \<and>
                privateGames (st r) = privateGames s))"
proof (intro conjI impI)
  assume "\<not> truthy_opt (choice opp)"
  then show "play_online cur c s =
              \<lparr>st = s\<lparr>players := AList.update cur (me\<lparr>choice := Some c\<rparr>) (players s)\<rparr>,
               sent = [], exc = None\<rparr>"
    using assms
    by (auto simp: play_online_def returns_def update_conv' truthy_opt_def split: option.splits)
next
  assume a: "choice opp = Some oc \<and> truthy oc"
  define r where "r = play_online cur c s"
  define res where "res = getResult c oc"
  define winner where "winner = (if res = ''player1'' then cur else opponent)"
  have "play_online cur c s =
          resolve_round cur (me\<lparr>choice := Some c\<rparr>) c opponent opp oc
            (s\<lparr>players := AList.update cur (me\<lparr>choice := Some c\<rparr>) (players s)\<rparr>)"
    using assms a by (simp add: play_online_def update_conv' Let_def)
  then have r: "r = resolve_round cur (me\<lparr>choice := Some c\<rparr>) c opponent opp oc
            (s\<lparr>players := AList.update cur (me\<lparr>choice := Some c\<rparr>) (players s)\<rparr>)"
    by (simp add: r_def)
  have db: "\<forall>n. map_of (db_players (st r)) n =
                 (if res \<noteq> ''draw'' \<and> n = winner
                  then map_option sqlite_add_one (map_of (db_players s) n)
                  else map_of (db_players s) n)"
    by (simp add: r res_def winner_def resolve_round_def Let_def increment_score_def
          map_of_map_entry map_option_case)
  have up: "\<forall>sc. res \<noteq> ''draw'' \<and> map_of (db_players s) winner = Some sc \<and>
                 - (2 ^ 63) \<le> sc \<and> sc < 2 ^ 63 \<longrightarrow>
                 map_of (db_players (st r)) winner = Some (sc + 1)"
    using db by (simp add: sqlite_add_one_def)
  have stay: "\<forall>sc. res \<noteq> ''draw'' \<and> map_of (db_players s) winner = Some sc \<and> 2 ^ 63 \<le> sc \<longrightarrow>
                   map_of (db_players (st r)) winner = Some sc"
    using db by (simp add: sqlite_add_one_def)
  have rest: "exc r = None \<and>
                sent r =
                  [(ws me, GameResult (if res = ''draw'' then ''draw''
                                       else if res = ''player1'' then ''player''
                                       else ''opponent'') c oc opponent),
                   (ws opp, GameResult (if res = ''draw'' then ''draw''
                                        else if res = ''player1'' then ''opponent''
                                        else ''player'') oc c cur)] @
                  broadcastRanking (st r) \<and>
                map_of (players (st r)) cur = Some (me\<lparr>choice := None\<rparr>) \<and>
                map_of (players (st r)) opponent = Some (opp\<lparr>choice := None\<rparr>) \<and>
                (\<forall>n. n \<noteq> cur \<and> n \<noteq> opponent \<longrightarrow>
                       map_of (players (st r)) n = map_of (players s) n) \<and>
                matches (st r) = matches s \<and>
                playerReadyState (st r) = playerReadyState s \<and>
                quickMatchQueue (st r) = quickMatchQueue s \<and>
                privateGames (st r) = privateGames s"
    using ne
    by (simp add: r res_def resolve_round_def Let_def increment_score_def update_conv')
  show "(let r = play_online cur c s;
                 res = getResult c oc;
                 winner = (if res = ''player1'' then cur else opponent)
             in exc r = None \<and>
                sent r =
                  [(ws me, GameResult (if res = ''draw'' then ''draw''
                                       else if res = ''player1'' then ''player''
                                       else ''opponent'') c oc opponent),
                   (ws opp, GameResult (if res = ''draw'' then ''draw''
                                        else if res = ''player1'' then ''opponent''
                                        else ''player'') oc c cur)] @
                  broadcastRanking (st r) \<and>
                (\<forall>n. map_of (db_players (st r)) n =
                       (if res \<noteq> ''draw'' \<and> n = winner
                        then map_option sqlite_add_one (map_of (db_players s) n)
                        else map_of (db_players s) n)) \<and>
                (\<forall>sc. res \<noteq> ''draw'' \<and> map_of (db_players s) winner = Some sc \<and>
                       - (2 ^ 63) \<le> sc \<and> sc < 2 ^ 63 \<longrightarrow>
                       map_of (db_players (st r)) winner = Some (sc + 1)) \<and>
                (\<forall>sc. res \<noteq> ''draw'' \<and> map_of (db_players s) winner = Some sc \<and>
                       2 ^ 63 \<le> sc \<longrightarrow>
                       map_of (db_players (st r)) winner = Some sc) \<and>
                map_of (players (st r)) cur = Some (me\<lparr>choice := None\<rparr>) \<and>
                map_of (players (st r)) opponent = Some (opp\<lparr>choice := None\<rparr>) \<and>
                (\<forall>n. n \<noteq> cur \<and> n \<noteq> opponent \<longrightarrow>
                       map_of (players (st r)) n = map_of (players s) n) \<and>
                matches (st r) = matches s \<and>
                playerReadyState (st r) = playerReadyState s \<and>
                quickMatchQueue (st r) = quickMatchQueue s \<and>
                privateGames (st r) = privateGames s)"
    unfolding Let_def r_def [symmetric] res_def [symmetric] winner_def [symmetric]
    using db up stay rest by blast
qed

theorem play_online_round_witness:
  "play_online ''alice'' ''pierre'' alice_bob_matched =
     \<lparr>st = alice_bob_matched
             \<lparr>players := [(''alice'', \<lparr>ws = 1, choice = Some ''pierre''\<rparr>),
                          (''bob'', \<lparr>ws = 2, choice = None\<rparr>)]\<rparr>,
      sent = [], exc = None\<rparr> \<and>
   sent (play_online ''alice'' ''pierre'' bob_has_chosen) =
     [(1, GameResult ''player'' ''pierre'' ''ciseaux'' ''bob''),
      (2, GameResult ''opponent'' ''ciseaux'' ''pierre'' ''alice''),
      (1, Ranking), (2, Ranking)] \<and>
   map_of (db_players (st (play_online ''alice'' ''pierre'' bob_has_chosen))) ''alice'' = Some 1 \<and>
   map_of (db_players (st (play_online ''alice'' ''pierre'' bob_has_chosen))) ''bob'' = Some 0 \<and>
   map_of (players (st (play_online ''alice'' ''pierre'' bob_has_chosen))) ''alice'' =
     Some \<lparr>ws = 1, choice = None\<rparr> \<and>
   map_of (players (st (play_online ''alice'' ''pierre'' bob_has_chosen))) ''bob'' =
     Some \<lparr>ws = 2, choice = None\<rparr> \<and>
   matches (st (play_online ''alice'' ''pierre'' bob_has_chosen)) =
     [(''alice'', ''bob''), (''bob'', ''alice'')]"
proof -
  have v: "''pierre'' \<in> set valid_choices"
    by (simp add: valid_choices_def)
  have ne: "''bob'' \<noteq> ''alice''" and tr: "truthy ''bob''"
    by (simp_all add: truthy_def)
  have a1: "map_of (players alice_bob_matched) ''alice'' = Some \<lparr>ws = 1, choice = None\<rparr>"
    and m1: "map_of (matches alice_bob_matched) ''alice'' = Some ''bob''"
    and b1: "map_of (players alice_bob_matched) ''bob'' = Some \<lparr>ws = 2, choice = None\<rparr>"
    by (simp_all add: alice_bob_matched_def)
  have a2: "map_of (players bob_has_chosen) ''alice'' = Some \<lparr>ws = 1, choice = None\<rparr>"
    and m2: "map_of (matches bob_has_chosen) ''alice'' = Some ''bob''"
    and b2: "map_of (players bob_has_chosen) ''bob'' = Some \<lparr>ws = 2, choice = Some ''ciseaux''\<rparr>"
    by (simp_all add: bob_has_chosen_def alice_bob_matched_def)
  have first: "play_online ''alice'' ''pierre'' alice_bob_matched =
     \<lparr>st = alice_bob_matched
             \<lparr>players := [(''alice'', \<lparr>ws = 1, choice = Some ''pierre''\<rparr>),
                          (''bob'', \<lparr>ws = 2, choice = None\<rparr>)]\<rparr>,
      sent = [], exc = None\<rparr>"
    using play_online_round [OF v a1 m1 ne tr b1]
    by (simp add: truthy_opt_def alice_bob_matched_def)
  define r where "r = play_online ''alice'' ''pierre'' bob_has_chosen"
  have res: "getResult ''pierre'' ''ciseaux'' = ''player1''"
    by (simp add: getResult_def)
  have T: "sent r =
             [(1, GameResult ''player'' ''pierre'' ''ciseaux'' ''bob''),
              (2, GameResult ''opponent'' ''ciseaux'' ''pierre'' ''alice'')] @
             broadcastRanking (st r) \<and>
           (\<forall>n. map_of (db_players (st r)) n =
                  (if n = ''alice''
                   then map_option sqlite_add_one (map_of (db_players bob_has_chosen) n)
                   else map_of (db_players bob_has_chosen) n)) \<and>
           map_of (players (st r)) ''alice'' = Some \<lparr>ws = 1, choice = None\<rparr> \<and>
           map_of (players (st r)) ''bob'' = Some \<lparr>ws = 2, choice = None\<rparr> \<and>
           matches (st r) = matches bob_has_chosen"
    using play_online_round [OF v a2 m2 ne tr b2, of "''ciseaux''"]
    by (simp add: Let_def truthy_def res r_def)
  have pl: "players (st r) =
            [(''alice'', \<lparr>ws = 1, choice = None\<rparr>), (''bob'', \<lparr>ws = 2, choice = None\<rparr>)]"
    by (simp add: r_def play_online_def resolve_round_def valid_choices_def truthy_def Let_def
          getResult_def increment_score_def bob_has_chosen_def alice_bob_matched_def)
  have bc: "broadcastRanking (st r) = [(1, Ranking), (2, Ranking)]"
    by (simp add: broadcastRanking_def pl)
  have db: "map_of (db_players bob_has_chosen) ''alice'' = Some 0"
    "map_of (db_players bob_has_chosen) ''bob'' = Some 0"
    "matches bob_has_chosen = [(''alice'', ''bob''), (''bob'', ''alice'')]"
    by (simp_all add: bob_has_chosen_def alice_bob_matched_def)
  have second: "sent r =
     [(1, GameResult ''player'' ''pierre'' ''ciseaux'' ''bob''),
      (2, GameResult ''opponent'' ''ciseaux'' ''pierre'' ''alice''),
      (1, Ranking), (2, Ranking)] \<and>
   map_of (db_players (st r)) ''alice'' = Some 1 \<and>
   map_of (db_players (st r)) ''bob'' = Some 0 \<and>
   map_of (players (st r)) ''alice'' = Some \<lparr>ws = 1, choice = None\<rparr> \<and>
   map_of (players (st r)) ''bob'' = Some \<lparr>ws = 2, choice = None\<rparr> \<and>
   matches (st r) = [(''alice'', ''bob''), (''bob'', ''alice'')]"
    using T by (simp add: bc db sqlite_add_one_def)
  from first second show ?thesis by (simp add: r_def)
qed

text \<open>
  The claim as written fails at two inputs. A guest may log in under the empty name and
  be matched (\<open>example_states_reachable\<close> below); the guard
  \<^verbatim>\<open>opponent && players.has(opponent)\<close> is a truthiness test, so when alice submits
  while the pending choice of that opponent is scissors, the round is not resolved: no
  message is sent, no score changes, and both choices stay pending. And a score that has
  reached \<open>2 ^ 63\<close> (\<open>score_at_limit_reachable\<close> below) is not incremented by a round
  its owner wins, though both result messages are sent.
\<close>

theorem round_unresolved_or_uncounted:
  "map_of (matches nameless_opponent) ''alice'' = Some [] \<and>
   map_of (players nameless_opponent) [] = Some \<lparr>ws = 2, choice = Some ''ciseaux''\<rparr> \<and>
   play_online ''alice'' ''pierre'' nameless_opponent =
     \<lparr>st = nameless_opponent
             \<lparr>players := [(''alice'', \<lparr>ws = 1, choice = Some ''pierre''\<rparr>),
                          ([], \<lparr>ws = 2, choice = Some ''ciseaux''\<rparr>)]\<rparr>,
      sent = [], exc = None\<rparr> \<and>
   map_of (matches score_at_limit) ''alice'' = Some ''bob'' \<and>
   map_of (players score_at_limit) ''bob'' = Some \<lparr>ws = 2, choice = Some ''ciseaux''\<rparr> \<and>
   map_of (db_players score_at_limit) ''alice'' = Some (2 ^ 63) \<and>
   sent (play_online ''alice'' ''pierre'' score_at_limit) =
     [(1, GameResult ''player'' ''pierre'' ''ciseaux'' ''bob''),
      (2, GameResult ''opponent'' ''ciseaux'' ''pierre'' ''alice''),
      (1, Ranking), (2, Ranking)] \<and>
   map_of (db_players (st (play_online ''alice'' ''pierre'' score_at_limit))) ''alice'' =
     Some (2 ^ 63)"
proof -
  have A: "map_of (matches nameless_opponent) ''alice'' = Some [] \<and>
     map_of (players nameless_opponent) [] = Some \<lparr>ws = 2, choice = Some ''ciseaux''\<rparr> \<and>
     play_online ''alice'' ''pierre'' nameless_opponent =
       \<lparr>st = nameless_opponent
               \<lparr>players := [(''alice'', \<lparr>ws = 1, choice = Some ''pierre''\<rparr>),
                            ([], \<lparr>ws = 2, choice = Some ''ciseaux''\<rparr>)]\<rparr>,
        sent = [], exc = None\<rparr>"
    by (simp add: nameless_opponent_def play_online_def returns_def valid_choices_def
          truthy_def Let_def)
  have B: "map_of (matches score_at_limit) ''alice'' = Some ''bob'' \<and>
     map_of (players score_at_limit) ''bob'' = Some \<lparr>ws = 2, choice = Some ''ciseaux''\<rparr> \<and>
     map_of (db_players score_at_limit) ''alice'' = Some (2 ^ 63)"
    by (simp add: score_at_limit_def bob_has_chosen_def alice_bob_matched_def)
  have C: "sent (play_online ''alice'' ''pierre'' score_at_limit) =
     [(1, GameResult ''player'' ''pierre'' ''ciseaux'' ''bob''),
      (2, GameResult ''opponent'' ''ciseaux'' ''pierre'' ''alice''),
      (1, Ranking), (2, Ranking)]"
    by (simp add: score_at_limit_def bob_has_chosen_def alice_bob_matched_def play_online_def
          resolve_round_def valid_choices_def truthy_def Let_def getResult_def
          increment_score_def broadcastRanking_def)
  have D: "map_of (db_players (st (play_online ''alice'' ''pierre'' score_at_limit))) ''alice'' =
     Some (2 ^ 63)"
    by (simp add: score_at_limit_def bob_has_chosen_def alice_bob_matched_def play_online_def
          resolve_round_def valid_choices_def truthy_def Let_def getResult_def
          increment_score_def sqlite_add_one_def)
  from A B C D show ?thesis by blast
qed

section \<open>Ready votes that disagree\<close>

text \<open>
  C10: when a \<^verbatim>\<open>ready_for_next_round\<close> vote leaves the two stored votes different
  (the sender has an opponent in the match table, the opponent is not the "IA" sentinel
  and is registered), the state changes in nothing but the sender's stored vote: match
  table, the opponent's vote and both pending choices stay. The only message is an
  \<^verbatim>\<open>opponent_left\<close> to the sender, and only when the sender voted true; a sender who
  voted false causes no message at all.
\<close>

theorem ready_votes_disagree:
  assumes m: "map_of (matches s) cur = Some opponent"
    and tr: "truthy opponent" and ia: "opponent \<noteq> ''IA''"
    and opp: "map_of (players s) opponent = Some opp"
    and dis: "map_of (AList.update cur ready (playerReadyState s)) cur \<noteq>
              map_of (AList.update cur ready (playerReadyState s)) opponent"
  shows "st (ready_for_next_round cur ready s) =
           s\<lparr>playerReadyState := AList.update cur ready (playerReadyState s)\<rparr> \<and>
         sent (ready_for_next_round cur ready s) =
           (if ready then
              (case map_of (players s) cur of
                 None \<Rightarrow> []
               | Some me \<Rightarrow> [(ws me, OpponentLeft)])
            else [])"
  using assms
  by (auto simp: ready_for_next_round_def returns_def Let_def truthy_ready_def update_conv'
           split: option.splits if_splits)

theorem ready_votes_disagree_witness:
  "st (ready_for_next_round ''alice'' True alice_bob_matched) =
     alice_bob_matched\<lparr>playerReadyState := [(''alice'', True), (''bob'', False)]\<rparr> \<and>
   sent (ready_for_next_round ''alice'' True alice_bob_matched) = [(1, OpponentLeft)] \<and>
   st (ready_for_next_round ''bob'' False
         (alice_bob_matched\<lparr>playerReadyState := [(''alice'', True), (''bob'', False)]\<rparr>)) =
     alice_bob_matched\<lparr>playerReadyState := [(''alice'', True), (''bob'', False)]\<rparr> \<and>
   sent (ready_for_next_round ''bob'' False
           (alice_bob_matched\<lparr>playerReadyState := [(''alice'', True), (''bob'', False)]\<rparr>)) = []"
proof -
  let ?s2 = "alice_bob_matched\<lparr>playerReadyState := [(''alice'', True), (''bob'', False)]\<rparr>"
  have tr: "truthy ''bob''" "truthy ''alice''" and ia: "''bob'' \<noteq> ''IA''" "''alice'' \<noteq> ''IA''"
    by (simp_all add: truthy_def)
  have m1: "map_of (matches alice_bob_matched) ''alice'' = Some ''bob''"
    and b1: "map_of (players alice_bob_matched) ''bob'' = Some \<lparr>ws = 2, choice = None\<rparr>"
    and a1: "map_of (players alice_bob_matched) ''alice'' = Some \<lparr>ws = 1, choice = None\<rparr>"
    and d1: "map_of (AList.update ''alice'' True (playerReadyState alice_bob_matched)) ''alice'' \<noteq>
             map_of (AList.update ''alice'' True (playerReadyState alice_bob_matched)) ''bob''"
    and u1: "AList.update ''alice'' True (playerReadyState alice_bob_matched) =
             [(''alice'', True), (''bob'', False)]"
    by (simp_all add: alice_bob_matched_def)
  have m2: "map_of (matches ?s2) ''bob'' = Some ''alice''"
    and a2: "map_of (players ?s2) ''alice'' = Some \<lparr>ws = 1, choice = None\<rparr>"
    and d2: "map_of (AList.update ''bob'' False (playerReadyState ?s2)) ''bob'' \<noteq>
             map_of (AList.update ''bob'' False (playerReadyState ?s2)) ''alice''"
    and u2: "AList.update ''bob'' False (playerReadyState ?s2) =
             [(''alice'', True), (''bob'', False)]"
    by (simp_all add: alice_bob_matched_def)
  from ready_votes_disagree [OF m1 tr(1) ia(1) b1 d1]
  have first: "st (ready_for_next_round ''alice'' True alice_bob_matched) = ?s2 \<and>
               sent (ready_for_next_round ''alice'' True alice_bob_matched) = [(1, OpponentLeft)]"
    by (simp add: u1 a1)
  from ready_votes_disagree [OF m2 tr(2) ia(2) a2 d2]
  have second: "st (ready_for_next_round ''bob'' False ?s2) = ?s2 \<and>
                sent (ready_for_next_round ''bob'' False ?s2) = []"
    by (simp add: u2)
  from first second show ?thesis by simp
qed

section \<open>Leaving and disconnecting\<close>

lemma removePlayerFromMatch_fields [simp]:
  "players (removePlayerFromMatch p s) = players s"
  "playerModes (removePlayerFromMatch p s) = playerModes s"
  "quickMatchQueue (removePlayerFromMatch p s) = quickMatchQueue s"
  "privateGames (removePlayerFromMatch p s) = privateGames s"
  "playerReadyState (removePlayerFromMatch p s) = playerReadyState s"
  "authenticatedUsers (removePlayerFromMatch p s) = authenticatedUsers s"
  "db_players (removePlayerFromMatch p s) = db_players s"
  by (simp_all add: removePlayerFromMatch_def Let_def split: option.splits)

lemma removePlayerFromMatch_own_entry:
  "map_of (matches (removePlayerFromMatch p s)) p = None \<or>
   map_of (matches (removePlayerFromMatch p s)) p = Some []"
  by (auto simp: removePlayerFromMatch_def Let_def truthy_def delete_conv' split: option.splits)

lemma removePlayerFromMatch_idem:
  "removePlayerFromMatch p (removePlayerFromMatch p s) = removePlayerFromMatch p s"
proof -
  have "map_of (matches (removePlayerFromMatch p s)) p = None \<or>
        map_of (matches (removePlayerFromMatch p s)) p = Some []"
    by (rule removePlayerFromMatch_own_entry)
  then show ?thesis
    by (auto simp: removePlayerFromMatch_def [of p "removePlayerFromMatch p s"] truthy_def)
qed

lemma removePlayerFromMatch_absent:
  "map_of (matches s) p = None \<Longrightarrow> removePlayerFromMatch p s = s"
  by (simp add: removePlayerFromMatch_def)

lemma matches_removePlayerFromMatch_cong:
  "matches s = matches t \<Longrightarrow>
   matches (removePlayerFromMatch p s) = matches (removePlayerFromMatch p t)"
  by (simp add: removePlayerFromMatch_def Let_def split: option.splits)

lemma notify_opponent_left_silent:
  "map_of (matches s) p = None \<or> map_of (matches s) p = Some [] \<Longrightarrow>
   notify_opponent_left p s = []"
  by (auto simp: notify_opponent_left_def truthy_def)

lemma leave_queue_and_lobbies_fields [simp]:
  "players (leave_queue_and_lobbies p s) = players s"
  "playerModes (leave_queue_and_lobbies p s) = playerModes s"
  "quickMatchQueue (leave_queue_and_lobbies p s) = remove1 p (quickMatchQueue s)"
  "privateGames (leave_queue_and_lobbies p s) =
     filter (\<lambda>(gameId, g). host g \<noteq> p) (privateGames s)"
  "matches (leave_queue_and_lobbies p s) = matches s"
  "playerReadyState (leave_queue_and_lobbies p s) = playerReadyState s"
  "authenticatedUsers (leave_queue_and_lobbies p s) = authenticatedUsers s"
  "db_players (leave_queue_and_lobbies p s) = db_players s"
  by (simp_all add: leave_queue_and_lobbies_def)

lemma leave_queue_and_lobbies_absent:
  assumes "p \<notin> set (quickMatchQueue s)" and "\<forall>(gid, g) \<in> set (privateGames s). host g \<noteq> p"
  shows "leave_queue_and_lobbies p s = s"
proof -
  have "filter (\<lambda>(gameId, g). host g \<noteq> p) (privateGames s) = privateGames s"
    using assms(2) by (auto simp: filter_id_conv)
  then show ?thesis
    using assms(1) by (simp add: leave_queue_and_lobbies_def remove1_idem)
qed

lemma leave_game_twice:
  assumes "distinct (quickMatchQueue s)"
  shows "leave_game cur (st (leave_game cur s)) =
           \<lparr>st = st (leave_game cur s), sent = [], exc = None\<rparr>"
proof -
  let ?s1 = "leave_queue_and_lobbies cur (removePlayerFromMatch cur s)"
  have n: "notify_opponent_left cur ?s1 = []"
    using removePlayerFromMatch_own_entry [of cur s]
    by (intro notify_opponent_left_silent) simp
  have m: "matches (removePlayerFromMatch cur ?s1) = matches (removePlayerFromMatch cur s)"
    using matches_removePlayerFromMatch_cong [of ?s1 "removePlayerFromMatch cur s" cur]
    by (simp add: removePlayerFromMatch_idem)
  have "leave_queue_and_lobbies cur (removePlayerFromMatch cur ?s1) = ?s1"
    using assms by (intro state.equality) (simp_all add: m remove1_idem)
  then show ?thesis using n by (simp add: leave_game_def)
qed

lemma leave_game_nothing_to_do:
  assumes "map_of (matches s) cur = None" and "cur \<notin> set (quickMatchQueue s)"
    and "\<forall>(gid, g) \<in> set (privateGames s). host g \<noteq> cur"
  shows "leave_game cur s = \<lparr>st = s, sent = [], exc = None\<rparr>"
  using assms
  by (simp add: leave_game_def removePlayerFromMatch_absent leave_queue_and_lobbies_absent
        notify_opponent_left_silent)

lemma on_close_state:
  "truthy cur \<Longrightarrow>
   on_close (Some cur) s =
     (let s2 = leave_queue_and_lobbies cur
                 (removePlayerFromMatch cur
                    (s\<lparr>players := AList.delete cur (players s),
                       playerModes := AList.delete cur (playerModes s),
                       playerReadyState := AList.delete cur (playerReadyState s),
                       authenticatedUsers := AList.delete cur (authenticatedUsers s)\<rparr>))
      in \<lparr>st = s2, sent = notify_opponent_left cur s @ broadcastOnlineCount s2, exc = None\<rparr>)"
  by (simp add: on_close_def Let_def)

lemma on_close_twice:
  assumes "distinct (quickMatchQueue s)"
  shows "on_close c (st (on_close c s)) =
           \<lparr>st = st (on_close c s),
            sent = (case c of
                      None \<Rightarrow> []
                    | Some cur \<Rightarrow>
                        if truthy cur then broadcastOnlineCount (st (on_close c s)) else []),
            exc = None\<rparr>"
proof (cases c)
  case None
  then show ?thesis by (simp add: on_close_def returns_def)
next
  case (Some cur)
  show ?thesis
  proof (cases "truthy cur")
    case False
    then show ?thesis using Some by (simp add: on_close_def returns_def)
  next
    case True
    define u :: "state \<Rightarrow> state" where "u = (\<lambda>s. s\<lparr>players := AList.delete cur (players s),
                     playerModes := AList.delete cur (playerModes s),
                     playerReadyState := AList.delete cur (playerReadyState s),
                     authenticatedUsers := AList.delete cur (authenticatedUsers s)\<rparr>)"
    have u: "players (u t) = AList.delete cur (players t)"
      "playerModes (u t) = AList.delete cur (playerModes t)"
      "playerReadyState (u t) = AList.delete cur (playerReadyState t)"
      "authenticatedUsers (u t) = AList.delete cur (authenticatedUsers t)"
      "matches (u t) = matches t" "quickMatchQueue (u t) = quickMatchQueue t"
      "privateGames (u t) = privateGames t" "db_players (u t) = db_players t" for t
      by (simp_all add: u_def)
    define s2 where "s2 = leave_queue_and_lobbies cur (removePlayerFromMatch cur (u s))"
    have close: "on_close (Some cur) t =
                   \<lparr>st = leave_queue_and_lobbies cur (removePlayerFromMatch cur (u t)),
                    sent = notify_opponent_left cur t @
                           broadcastOnlineCount
                             (leave_queue_and_lobbies cur (removePlayerFromMatch cur (u t))),
                    exc = None\<rparr>" for t
      using True by (simp add: on_close_state Let_def u_def)
    have own: "map_of (matches s2) cur = None \<or> map_of (matches s2) cur = Some []"
      using removePlayerFromMatch_own_entry [of cur "u s"] by (simp add: s2_def)
    have n: "notify_opponent_left cur s2 = []"
      using own by (rule notify_opponent_left_silent)
    have "matches (u s2) = matches (removePlayerFromMatch cur (u s))"
      by (simp add: u s2_def)
    then have "matches (removePlayerFromMatch cur (u s2)) =
               matches (removePlayerFromMatch cur (removePlayerFromMatch cur (u s)))"
      by (rule matches_removePlayerFromMatch_cong)
    then have m: "matches (removePlayerFromMatch cur (u s2)) = matches s2"
      by (simp add: removePlayerFromMatch_idem s2_def)
    have q: "distinct (quickMatchQueue (u s))"
      using assms by (simp add: u)
    have eq: "leave_queue_and_lobbies cur (removePlayerFromMatch cur (u s2)) = s2"
    proof (rule state.equality)
      show "matches (leave_queue_and_lobbies cur (removePlayerFromMatch cur (u s2))) = matches s2"
        using m by simp
      show "quickMatchQueue (leave_queue_and_lobbies cur (removePlayerFromMatch cur (u s2))) =
            quickMatchQueue s2"
        using q by (simp add: u s2_def remove1_idem)
    qed (simp_all add: u s2_def delete_idem)
    have "on_close (Some cur) s2 = \<lparr>st = s2, sent = broadcastOnlineCount s2, exc = None\<rparr>"
      by (simp add: close n eq)
    moreover have "st (on_close (Some cur) s) = s2"
      by (simp add: close s2_def)
    ultimately show ?thesis using Some True by simp
  qed
qed

lemma on_close_nothing_to_do:
  assumes "map_of (matches s) cur = None" and "cur \<notin> set (quickMatchQueue s)"
    and "\<forall>(gid, g) \<in> set (privateGames s). host g \<noteq> cur"
  shows "matches (st (on_close (Some cur) s)) = matches s \<and>
         quickMatchQueue (st (on_close (Some cur) s)) = quickMatchQueue s \<and>
         privateGames (st (on_close (Some cur) s)) = privateGames s \<and>
         (\<forall>w. (w, OpponentLeft) \<notin> set (sent (on_close (Some cur) s)))"
proof (cases "truthy cur")
  case False
  then show ?thesis by (simp add: on_close_def returns_def)
next
  case True
  let ?u = "s\<lparr>players := AList.delete cur (players s),
              playerModes := AList.delete cur (playerModes s),
              playerReadyState := AList.delete cur (playerReadyState s),
              authenticatedUsers := AList.delete cur (authenticatedUsers s)\<rparr>"
  have r: "removePlayerFromMatch cur ?u = ?u"
    using assms(1) by (simp add: removePlayerFromMatch_absent)
  have l: "leave_queue_and_lobbies cur ?u = ?u"
    using assms(2,3) by (intro leave_queue_and_lobbies_absent) simp_all
  have n: "notify_opponent_left cur s = []"
    using assms(1) by (simp add: notify_opponent_left_silent)
  show ?thesis
    using True by (auto simp: on_close_state Let_def r l n broadcastOnlineCount_def)
qed

text \<open>
  C9: with a queue that holds each name at most once (the \<^verbatim>\<open>quick_match\<close> handler
  only pushes a name the queue does not include; \<open>well_formed_run\<close> below), running
  the \<^verbatim>\<open>leave_game\<close> handler a second time sends nothing, raises nothing and leaves
  the state of the first run; running it for a participant with no match, no queue entry
  and no hosted lobby sends nothing and changes nothing. The \<^verbatim>\<open>close\<close> handler run a
  second time leaves the state of the first run and sends no \<^verbatim>\<open>opponent_left\<close> (it
  sends the online count); run for a participant with no match, no queue entry and no
  hosted lobby it sends no \<^verbatim>\<open>opponent_left\<close> and leaves match table, queue and
  lobbies as they are (it unregisters the participant).
\<close>

theorem teardown_idempotent:
  assumes "distinct (quickMatchQueue s)"
  shows "leave_game cur (st (leave_game cur s)) =
           \<lparr>st = st (leave_game cur s), sent = [], exc = None\<rparr> \<and>
         (map_of (matches s) cur = None \<and> cur \<notin> set (quickMatchQueue s) \<and>
          (\<forall>(gid, g) \<in> set (privateGames s). host g \<noteq> cur) \<longrightarrow>
            leave_game cur s = \<lparr>st = s, sent = [], exc = None\<rparr> \<and>
            matches (st (on_close (Some cur) s)) = matches s \<and>
            quickMatchQueue (st (on_close (Some cur) s)) = quickMatchQueue s \<and>
            privateGames (st (on_close (Some cur) s)) = privateGames s \<and>
            (\<forall>w. (w, OpponentLeft) \<notin> set (sent (on_close (Some cur) s)))) \<and>
         exc (leave_game cur s) = None \<and>
         st (on_close c (st (on_close c s))) = st (on_close c s) \<and>
         exc (on_close c (st (on_close c s))) = None \<and>
         (\<forall>w. (w, OpponentLeft) \<notin> set (sent (on_close c (st (on_close c s)))))"
proof -
  have "\<forall>w. (w, OpponentLeft) \<notin> set (sent (on_close c (st (on_close c s))))"
    using on_close_twice [OF assms, of c]
    by (auto simp: broadcastOnlineCount_def split: option.splits)
  then show ?thesis
    using leave_game_twice [OF assms, of cur] leave_game_nothing_to_do [of s cur]
      on_close_nothing_to_do [of s cur] on_close_twice [OF assms, of c]
    by (simp add: leave_game_def)
qed

theorem teardown_idempotent_witness:
  "distinct (quickMatchQueue alice_bob_matched) \<and>
   sent (leave_game ''alice'' alice_bob_matched) = [(2, OpponentLeft)] \<and>
   matches (st (leave_game ''alice'' alice_bob_matched)) = [] \<and>
   leave_game ''alice'' (st (leave_game ''alice'' alice_bob_matched)) =
     \<lparr>st = st (leave_game ''alice'' alice_bob_matched), sent = [], exc = None\<rparr> \<and>
   leave_game ''bob'' lobby_open = \<lparr>st = lobby_open, sent = [], exc = None\<rparr> \<and>
   privateGames (st (on_close (Some ''bob'') lobby_open)) = privateGames lobby_open \<and>
   sent (on_close (Some ''bob'') lobby_open) = [(1, OnlineCount 2), (3, OnlineCount 2)] \<and>
   sent (on_close (Some ''alice'') alice_bob_matched) = [(2, OpponentLeft), (2, OnlineCount 1)] \<and>
   st (on_close (Some ''alice'') (st (on_close (Some ''alice'') alice_bob_matched))) =
     st (on_close (Some ''alice'') alice_bob_matched)"
proof -
  have d1: "distinct (quickMatchQueue alice_bob_matched)"
    by (simp add: alice_bob_matched_def)
  have d2: "distinct (quickMatchQueue lobby_open)"
    by (simp add: lobby_open_def)
  have free: "map_of (matches lobby_open) ''bob'' = None \<and>
              ''bob'' \<notin> set (quickMatchQueue lobby_open) \<and>
              (\<forall>(gid, g) \<in> set (privateGames lobby_open). host g \<noteq> ''bob'')"
    by (simp add: lobby_open_def)
  have first: "sent (leave_game ''alice'' alice_bob_matched) = [(2, OpponentLeft)] \<and>
               matches (st (leave_game ''alice'' alice_bob_matched)) = []"
    by (simp add: leave_game_def notify_opponent_left_def removePlayerFromMatch_def truthy_def
          alice_bob_matched_def)
  have close: "sent (on_close (Some ''alice'') alice_bob_matched) =
                 [(2, OpponentLeft), (2, OnlineCount 1)]"
    by (simp add: on_close_state Let_def truthy_def notify_opponent_left_def
          broadcastOnlineCount_def alice_bob_matched_def)
  have close2: "sent (on_close (Some ''bob'') lobby_open) =
                  [(1, OnlineCount 2), (3, OnlineCount 2)]"
    by (simp add: on_close_state Let_def truthy_def notify_opponent_left_def
          broadcastOnlineCount_def lobby_open_def)
  from teardown_idempotent [OF d1, of "''alice''" "Some ''alice''"]
  have "leave_game ''alice'' (st (leave_game ''alice'' alice_bob_matched)) =
          \<lparr>st = st (leave_game ''alice'' alice_bob_matched), sent = [], exc = None\<rparr> \<and>
        st (on_close (Some ''alice'') (st (on_close (Some ''alice'') alice_bob_matched))) =
          st (on_close (Some ''alice'') alice_bob_matched)"
    by simp
  moreover from teardown_idempotent [OF d2, of "''bob''" None] free
  have "leave_game ''bob'' lobby_open = \<lparr>st = lobby_open, sent = [], exc = None\<rparr> \<and>
        privateGames (st (on_close (Some ''bob'') lobby_open)) = privateGames lobby_open"
    by simp
  ultimately show ?thesis using d1 first close close2 by simp
qed

section \<open>Draining the quick-match queue\<close>

lemma formed_pairs_simps:
  "formed_pairs ps (a # b # q) =
     (if has ps a \<and> has ps b then (a, b) # formed_pairs ps q else formed_pairs ps q)"
  "formed_pairs ps [] = []" "formed_pairs ps [x] = []"
  by (simp_all add: formed_pairs_def)

lemma matchLoop_char:
  "quickMatchQueue s = q \<Longrightarrow>
   matchLoop q s =
     (s\<lparr>quickMatchQueue := drop (2 * (length q div 2)) q,
        matches := foldl (\<lambda>m (a, b). set_match a b m) (matches s) (formed_pairs (players s) q),
        playerReadyState :=
          foldl (\<lambda>m (a, b). set_ready_false a b m) (playerReadyState s)
            (formed_pairs (players s) q)\<rparr>,
      concat (map (pair_messages (players s)) (drawn_pairs q)))"
proof (induction q s rule: matchLoop.induct)
  case (1 player1 player2 rest s)
  let ?s1 = "s\<lparr>quickMatchQueue := rest\<rparr>"
  show ?case
  proof (cases "map_of (players s) player1")
    case None
    then have n: "\<not> has (players s) player1" by (simp add: has_def)
    have "matchLoop rest ?s1 = (?s1\<lparr>quickMatchQueue := drop (2 * (length rest div 2)) rest,
        matches := foldl (\<lambda>m (a, b). set_match a b m) (matches ?s1) (formed_pairs (players ?s1) rest),
        playerReadyState :=
          foldl (\<lambda>m (a, b). set_ready_false a b m) (playerReadyState ?s1)
            (formed_pairs (players ?s1) rest)\<rparr>,
      concat (map (pair_messages (players ?s1)) (drawn_pairs rest)))"
      using None by (intro "1.IH"(1) [OF refl]) simp_all
    then show ?thesis using n None by (simp add: formed_pairs_simps pair_messages_def)
  next
    case (Some p1)
    note p1 = this
    show ?thesis
    proof (cases "map_of (players s) player2")
      case None
      then have n: "\<not> has (players s) player2" by (simp add: has_def)
      have "matchLoop rest ?s1 = (?s1\<lparr>quickMatchQueue := drop (2 * (length rest div 2)) rest,
        matches := foldl (\<lambda>m (a, b). set_match a b m) (matches ?s1) (formed_pairs (players ?s1) rest),
        playerReadyState :=
          foldl (\<lambda>m (a, b). set_ready_false a b m) (playerReadyState ?s1)
            (formed_pairs (players ?s1) rest)\<rparr>,
      concat (map (pair_messages (players ?s1)) (drawn_pairs rest)))"
        using None p1 by (intro "1.IH"(2) [OF refl]) simp_all
      then show ?thesis using n None p1 by (simp add: formed_pairs_simps pair_messages_def)
    next
      case (Some p2)
      let ?s2 = "?s1\<lparr>matches := set_match player1 player2 (matches ?s1),
                      playerReadyState := set_ready_false player1 player2 (playerReadyState ?s1)\<rparr>"
      have h: "has (players s) player1" "has (players s) player2"
        using p1 Some by (simp_all add: has_def)
      have ih: "matchLoop rest ?s2 = (?s2\<lparr>quickMatchQueue := drop (2 * (length rest div 2)) rest,
        matches := foldl (\<lambda>m (a, b). set_match a b m) (matches ?s2) (formed_pairs (players ?s2) rest),
        playerReadyState :=
          foldl (\<lambda>m (a, b). set_ready_false a b m) (playerReadyState ?s2)
            (formed_pairs (players ?s2) rest)\<rparr>,
      concat (map (pair_messages (players ?s2)) (drawn_pairs rest)))"
        using p1 Some by (intro "1.IH"(3) [OF refl _ _ refl]) simp_all
      show ?thesis
        using h p1 Some ih by (simp add: Let_def formed_pairs_simps pair_messages_def)
    qed
  qed
qed (simp_all add: formed_pairs_simps)

text \<open>
  C5, as the code has it: draining is strict FIFO. It removes the two oldest entries
  together while at least two remain, so at most the last name of an odd queue stays.
  A drawn pair is matched, in the order of drawing, exactly when both names are
  registered, and then both get \<^verbatim>\<open>game_joined\<close>; otherwise both drawn names are
  dropped, the registered one of the two included. No name that is not registered is
  ever matched.
\<close>

theorem matchQuickPlayers_drain:
  "(let q = quickMatchQueue s; ps = players s; r = matchQuickPlayers s
    in exc r = None \<and>
       quickMatchQueue (st r) = drop (2 * (length q div 2)) q \<and>
       sent r = concat (map (pair_messages ps) (drawn_pairs q)) \<and>
       matches (st r) = foldl (\<lambda>m (a, b). set_match a b m) (matches s) (formed_pairs ps q) \<and>
       playerReadyState (st r) =
         foldl (\<lambda>m (a, b). set_ready_false a b m) (playerReadyState s) (formed_pairs ps q) \<and>
       (\<forall>(a, b) \<in> set (formed_pairs ps q). has ps a \<and> has ps b) \<and>
       players (st r) = ps \<and> privateGames (st r) = privateGames s \<and>
       db_players (st r) = db_players s)"
  by (simp add: matchQuickPlayers_def Let_def matchLoop_char [OF refl] formed_pairs_def)

theorem matchQuickPlayers_drain_witness:
  "quickMatchQueue long_queue = [''alice'', ''bob'', ''carol'', ''dave'', ''erin''] \<and>
   has (players long_queue) ''alice'' \<and> \<not> has (players long_queue) ''bob'' \<and>
   formed_pairs (players long_queue) (quickMatchQueue long_queue) = [(''carol'', ''dave'')] \<and>
   quickMatchQueue (st (matchQuickPlayers long_queue)) = [''erin''] \<and>
   sent (matchQuickPlayers long_queue) = [(3, GameJoined ''dave''), (4, GameJoined ''carol'')] \<and>
   matches (st (matchQuickPlayers long_queue)) = [(''carol'', ''dave''), (''dave'', ''carol'')]"
proof -
  have q: "quickMatchQueue long_queue = [''alice'', ''bob'', ''carol'', ''dave'', ''erin'']"
    and m: "matches long_queue = []"
    and h: "has (players long_queue) ''alice''" "\<not> has (players long_queue) ''bob''"
    by (simp_all add: long_queue_def has_def)
  have f: "formed_pairs (players long_queue) (quickMatchQueue long_queue) = [(''carol'', ''dave'')]"
    by (simp add: formed_pairs_def has_def long_queue_def)
  have pm: "concat (map (pair_messages (players long_queue)) (drawn_pairs (quickMatchQueue long_queue))) =
            [(3, GameJoined ''dave''), (4, GameJoined ''carol'')]"
    by (simp add: pair_messages_def long_queue_def)
  from matchQuickPlayers_drain [of long_queue]
  have "quickMatchQueue (st (matchQuickPlayers long_queue)) = [''erin''] \<and>
        sent (matchQuickPlayers long_queue) = [(3, GameJoined ''dave''), (4, GameJoined ''carol'')] \<and>
        matches (st (matchQuickPlayers long_queue)) = [(''carol'', ''dave''), (''dave'', ''carol'')]"
    unfolding Let_def f pm by (simp add: q m set_match_def)
  then show ?thesis using q h f by simp
qed

text \<open>
  C5 as stated fails: alice is registered and waits in the queue; a \<^verbatim>\<open>quick_match\<close>
  arrives under the name bob, which is not registered. The loop draws alice and bob
  together and drops both: alice is out of the queue, unmatched and not told.
\<close>

theorem registered_partner_discarded:
  "has (players alice_waiting) ''alice'' \<and> \<not> has (players alice_waiting) ''bob'' \<and>
   quickMatchQueue alice_waiting = [''alice''] \<and>
   quickMatchQueue (st (quick_match ''bob'' alice_waiting)) = [] \<and>
   matches (st (quick_match ''bob'' alice_waiting)) = [] \<and>
   sent (quick_match ''bob'' alice_waiting) = []"
  by (simp add: quick_match_def matchQuickPlayers_def has_def alice_waiting_def)

section \<open>Pairing a participant who is already matched\<close>

lemma set_match_lookup:
  "map_of (set_match a b m) x =
     (if x = b then Some a else if x = a then Some b else map_of m x)"
  by (simp add: set_match_def update_conv')

lemma quick_match_single:
  assumes q: "quickMatchQueue s = [a]" and ne: "c \<noteq> a"
    and pa: "map_of (players s) a = Some pa" and pc: "map_of (players s) c = Some pc"
  shows "quick_match c s =
           \<lparr>st = s\<lparr>quickMatchQueue := [],
                   matches := set_match a c (matches s),
                   playerReadyState := set_ready_false a c (playerReadyState s)\<rparr>,
            sent = [(ws pa, GameJoined c), (ws pc, GameJoined a)], exc = None\<rparr>"
  using assms by (simp add: quick_match_def matchQuickPlayers_def Let_def)

lemma join_private_game_success:
  assumes g: "map_of (privateGames s) gid = Some g" and ne: "host g \<noteq> cur"
    and free: "\<not> truthy_opt (guest g)"
    and ph: "map_of (players s) (host g) = Some h" and pm: "map_of (players s) cur = Some me"
  shows "join_private_game cur gid s =
           \<lparr>st = s\<lparr>privateGames :=
                     AList.update gid (g\<lparr>guest := Some cur\<rparr>) (privateGames s),
                   matches := set_match (host g) cur (matches s),
                   playerReadyState := set_ready_false (host g) cur (playerReadyState s)\<rparr>,
            sent = [(ws h, GameJoined cur), (ws me, GameJoined (host g))], exc = None\<rparr>"
  using assms by (simp add: join_private_game_def)

text \<open>
  C1, as the code has it: there is no "already matched" failure. When participant
  \<open>a\<close> has the opponent \<open>b\<close> in the match table and is paired with a third registered
  participant \<open>c\<close>, by a join of a private lobby that one of the two hosts or by the
  queue when one of the two waits there and the other asks for a quick match, the
  pairing goes through: both get \<^verbatim>\<open>game_joined\<close>, the entry of \<open>a\<close> is overwritten
  so that \<open>a\<close> and \<open>c\<close> point at each other, and the entry of the former opponent
  \<open>b\<close> is left as it was.
\<close>

theorem pairing_overwrites:
  assumes ab: "map_of (matches s) a = Some b"
    and ba: "b \<noteq> a" and ca: "c \<noteq> a" and cb: "c \<noteq> b"
    and pa: "map_of (players s) a = Some pa"
    and pc: "map_of (players s) c = Some pc"
  shows "(map_of (privateGames s) gid = Some g \<and> host g = a \<and> \<not> truthy_opt (guest g) \<longrightarrow>
           (let r = join_private_game c gid s
            in exc r = None \<and>
               sent r = [(ws pa, GameJoined c), (ws pc, GameJoined a)] \<and>
               map_of (matches (st r)) a = Some c \<and>
               map_of (matches (st r)) c = Some a \<and>
               map_of (matches (st r)) b = map_of (matches s) b)) \<and>
         (map_of (privateGames s) gid = Some g \<and> host g = c \<and> \<not> truthy_opt (guest g) \<longrightarrow>
           (let r = join_private_game a gid s
            in exc r = None \<and>
               sent r = [(ws pc, GameJoined a), (ws pa, GameJoined c)] \<and>
               map_of (matches (st r)) a = Some c \<and>
               map_of (matches (st r)) c = Some a \<and>
               map_of (matches (st r)) b = map_of (matches s) b)) \<and>
         (quickMatchQueue s = [a] \<longrightarrow>
           (let r = quick_match c s
            in exc r = None \<and>
               sent r = [(ws pa, GameJoined c), (ws pc, GameJoined a)] \<and>
               map_of (matches (st r)) a = Some c \<and>
               map_of (matches (st r)) c = Some a \<and>
               map_of (matches (st r)) b = map_of (matches s) b)) \<and>
         (quickMatchQueue s = [c] \<longrightarrow>
           (let r = quick_match a s
            in exc r = None \<and>
               sent r = [(ws pc, GameJoined a), (ws pa, GameJoined c)] \<and>
               map_of (matches (st r)) a = Some c \<and>
               map_of (matches (st r)) c = Some a \<and>
               map_of (matches (st r)) b = map_of (matches s) b))"
proof (intro conjI impI)
  assume "map_of (privateGames s) gid = Some g \<and> host g = a \<and> \<not> truthy_opt (guest g)"
  then show "let r = join_private_game c gid s
            in exc r = None \<and>
               sent r = [(ws pa, GameJoined c), (ws pc, GameJoined a)] \<and>
               map_of (matches (st r)) a = Some c \<and>
               map_of (matches (st r)) c = Some a \<and>
               map_of (matches (st r)) b = map_of (matches s) b"
    using ba ca cb pa pc
    by (simp add: join_private_game_success [of s gid g c pa pc] Let_def set_match_lookup)
next
  assume "map_of (privateGames s) gid = Some g \<and> host g = c \<and> \<not> truthy_opt (guest g)"
  then show "let r = join_private_game a gid s
            in exc r = None \<and>
               sent r = [(ws pc, GameJoined a), (ws pa, GameJoined c)] \<and>
               map_of (matches (st r)) a = Some c \<and>
               map_of (matches (st r)) c = Some a \<and>
               map_of (matches (st r)) b = map_of (matches s) b"
    using ba ca cb pa pc
    by (simp add: join_private_game_success [of s gid g a pc pa] Let_def set_match_lookup)
next
  assume "quickMatchQueue s = [a]"
  then show "let r = quick_match c s
            in exc r = None \<and>
               sent r = [(ws pa, GameJoined c), (ws pc, GameJoined a)] \<and>
               map_of (matches (st r)) a = Some c \<and>
               map_of (matches (st r)) c = Some a \<and>
               map_of (matches (st r)) b = map_of (matches s) b"
    using ba ca cb pa pc
    by (simp add: quick_match_single [of s a c pa pc] Let_def set_match_lookup)
next
  assume "quickMatchQueue s = [c]"
  then show "let r = quick_match a s
            in exc r = None \<and>
               sent r = [(ws pc, GameJoined a), (ws pa, GameJoined c)] \<and>
               map_of (matches (st r)) a = Some c \<and>
               map_of (matches (st r)) c = Some a \<and>
               map_of (matches (st r)) b = map_of (matches s) b"
    using ba ca cb pa pc
    by (simp add: quick_match_single [of s c a pc pa] Let_def set_match_lookup)
qed

theorem pairing_overwrites_witness:
  "map_of (matches host_already_matched) ''alice'' = Some ''bob'' \<and>
   map_of (matches host_already_matched) ''bob'' = Some ''alice'' \<and>
   exc (join_private_game ''carol'' ''g1'' host_already_matched) = None \<and>
   sent (join_private_game ''carol'' ''g1'' host_already_matched) =
     [(1, GameJoined ''carol''), (3, GameJoined ''alice'')] \<and>
   map_of (matches (st (join_private_game ''carol'' ''g1'' host_already_matched))) ''alice'' =
     Some ''carol'' \<and>
   map_of (matches (st (join_private_game ''carol'' ''g1'' host_already_matched))) ''carol'' =
     Some ''alice'' \<and>
   map_of (matches (st (join_private_game ''carol'' ''g1'' host_already_matched))) ''bob'' =
     Some ''alice'' \<and>
   sent (join_private_game ''alice'' ''g2''
           (host_already_matched
              \<lparr>privateGames := [(''g2'', \<lparr>host = ''carol'', guest = None\<rparr>)]\<rparr>)) =
     [(3, GameJoined ''alice''), (1, GameJoined ''carol'')] \<and>
   sent (quick_match ''carol'' (host_already_matched\<lparr>quickMatchQueue := [''alice'']\<rparr>)) =
     [(1, GameJoined ''carol''), (3, GameJoined ''alice'')] \<and>
   sent (quick_match ''alice'' (host_already_matched\<lparr>quickMatchQueue := [''carol'']\<rparr>)) =
     [(3, GameJoined ''alice''), (1, GameJoined ''carol'')]"
proof -
  let ?h2 = "host_already_matched\<lparr>privateGames := [(''g2'', \<lparr>host = ''carol'', guest = None\<rparr>)]\<rparr>"
  let ?h3 = "host_already_matched\<lparr>quickMatchQueue := [''alice'']\<rparr>"
  let ?h4 = "host_already_matched\<lparr>quickMatchQueue := [''carol'']\<rparr>"
  have ab: "map_of (matches host_already_matched) ''alice'' = Some ''bob''"
    and ba: "map_of (matches host_already_matched) ''bob'' = Some ''alice''"
    and pa: "map_of (players host_already_matched) ''alice'' = Some \<lparr>ws = 1, choice = None\<rparr>"
    and pc: "map_of (players host_already_matched) ''carol'' = Some \<lparr>ws = 3, choice = None\<rparr>"
    and g: "map_of (privateGames host_already_matched) ''g1'' =
              Some \<lparr>host = ''alice'', guest = None\<rparr>"
    by (simp_all add: host_already_matched_def)
  have ab2: "map_of (matches ?h2) ''alice'' = Some ''bob''"
    and pa2: "map_of (players ?h2) ''alice'' = Some \<lparr>ws = 1, choice = None\<rparr>"
    and pc2: "map_of (players ?h2) ''carol'' = Some \<lparr>ws = 3, choice = None\<rparr>"
    and g2: "map_of (privateGames ?h2) ''g2'' = Some \<lparr>host = ''carol'', guest = None\<rparr>"
    by (simp_all add: host_already_matched_def)
  have ab3: "map_of (matches ?h3) ''alice'' = Some ''bob''"
    and pa3: "map_of (players ?h3) ''alice'' = Some \<lparr>ws = 1, choice = None\<rparr>"
    and pc3: "map_of (players ?h3) ''carol'' = Some \<lparr>ws = 3, choice = None\<rparr>"
    and q3: "quickMatchQueue ?h3 = [''alice'']"
    by (simp_all add: host_already_matched_def)
  have ab4: "map_of (matches ?h4) ''alice'' = Some ''bob''"
    and pa4: "map_of (players ?h4) ''alice'' = Some \<lparr>ws = 1, choice = None\<rparr>"
    and pc4: "map_of (players ?h4) ''carol'' = Some \<lparr>ws = 3, choice = None\<rparr>"
    and q4: "quickMatchQueue ?h4 = [''carol'']"
    by (simp_all add: host_already_matched_def)
  have ne: "''bob'' \<noteq> ''alice''" "''carol'' \<noteq> ''alice''" "''carol'' \<noteq> ''bob''"
    by simp_all
  from pairing_overwrites [OF ab ne pa pc, of "''g1''" "\<lparr>host = ''alice'', guest = None\<rparr>"] g ba
  have one: "exc (join_private_game ''carol'' ''g1'' host_already_matched) = None \<and>
   sent (join_private_game ''carol'' ''g1'' host_already_matched) =
     [(1, GameJoined ''carol''), (3, GameJoined ''alice'')] \<and>
   map_of (matches (st (join_private_game ''carol'' ''g1'' host_already_matched))) ''alice'' =
     Some ''carol'' \<and>
   map_of (matches (st (join_private_game ''carol'' ''g1'' host_already_matched))) ''carol'' =
     Some ''alice'' \<and>
   map_of (matches (st (join_private_game ''carol'' ''g1'' host_already_matched))) ''bob'' =
     Some ''alice''"
    by (simp add: Let_def truthy_opt_def)
  from pairing_overwrites [OF ab2 ne pa2 pc2, of "''g2''" "\<lparr>host = ''carol'', guest = None\<rparr>"] g2
  have two: "sent (join_private_game ''alice'' ''g2'' ?h2) =
               [(3, GameJoined ''alice''), (1, GameJoined ''carol'')]"
    by (simp add: Let_def truthy_opt_def)
  from pairing_overwrites [OF ab3 ne pa3 pc3] q3
  have three: "sent (quick_match ''carol'' ?h3) =
                 [(1, GameJoined ''carol''), (3, GameJoined ''alice'')]"
    by (simp add: Let_def)
  from pairing_overwrites [OF ab4 ne pa4 pc4] q4
  have four: "sent (quick_match ''alice'' ?h4) =
                [(3, GameJoined ''alice''), (1, GameJoined ''carol'')]"
    by (simp add: Let_def)
  from one two three four ab ba show ?thesis by blast
qed

text \<open>
  C1 as stated fails: alice and bob are matched and alice hosts the lobby \<open>g1\<close>.
  carol joins \<open>g1\<close>: no error is sent, alice now points at carol, and bob still
  points at alice. The same happens through the queue when alice asks for a quick match
  and carol asks next.
\<close>

theorem matched_player_paired_again:
  "map_of (matches host_already_matched) ''alice'' = Some ''bob'' \<and>
   map_of (matches host_already_matched) ''bob'' = Some ''alice'' \<and>
   sent (join_private_game ''carol'' ''g1'' host_already_matched) =
     [(1, GameJoined ''carol''), (3, GameJoined ''alice'')] \<and>
   matches (st (join_private_game ''carol'' ''g1'' host_already_matched)) =
     [(''alice'', ''carol''), (''bob'', ''alice''), (''carol'', ''alice'')] \<and>
   sent (quick_match ''alice'' host_already_matched) = [] \<and>
   sent (quick_match ''carol'' (st (quick_match ''alice'' host_already_matched))) =
     [(1, GameJoined ''carol''), (3, GameJoined ''alice'')] \<and>
   matches (st (quick_match ''carol'' (st (quick_match ''alice'' host_already_matched)))) =
     [(''alice'', ''carol''), (''bob'', ''alice''), (''carol'', ''alice'')]"
  by (simp add: join_private_game_def quick_match_def matchQuickPlayers_def truthy_opt_def
        set_match_def set_ready_false_def host_already_matched_def)

section \<open>Symmetry of the match table\<close>











lemma join_private_game_matches:
  "matches (st (join_private_game p gid s)) =
     (case map_of (privateGames s) gid of
        None \<Rightarrow> matches s
      | Some g \<Rightarrow>
          if host g = p \<or> truthy_opt (guest g) then matches s
          else set_match (host g) p (matches s))"
  by (simp add: join_private_game_def send_error_def Let_def split: option.splits)

lemma quick_match_matches:
  "matches (st (quick_match p s)) =
     foldl (\<lambda>m (a, b). set_match a b m) (matches s)
       (formed_pairs (players s)
          (if p \<in> set (quickMatchQueue s) then quickMatchQueue s else quickMatchQueue s @ [p]))"
  by (simp add: quick_match_def matchQuickPlayers_def matchLoop_char [OF refl])

lemma handlers_keep_matches:
  "matches (st (play_online p ch s)) = matches s"
  "matches (st (ready_for_next_round p v s)) = matches s"
  "matches (st (create_private_game p gid s)) = matches s"
  "matches (st (select_mode p md s)) = matches s"
  "matches (st (snd (login w cn d auth s))) = matches s"
proof -
  show "matches (st (play_online p ch s)) = matches s"
    by (simp add: play_online_def resolve_round_def returns_def increment_score_def Let_def
          split: option.splits)
  show "matches (st (ready_for_next_round p v s)) = matches s"
    by (simp add: ready_for_next_round_def returns_def Let_def split: option.splits)
  show "matches (st (create_private_game p gid s)) = matches s"
    by (simp add: create_private_game_def Let_def split: option.splits)
  show "matches (st (select_mode p md s)) = matches s"
    by (simp add: select_mode_def returns_def)
  show "matches (st (snd (login w cn d auth s))) = matches s"
    by (simp add: login_def login_token_def login_password_def login_guest_def Let_def
          split: option.splits auth_result.splits)
qed













section \<open>Logging in under a registered name\<close>

lemma login_guest_name_taken:
  "has (players s) n \<Longrightarrow>
   login_guest w c n s =
     (c\<lparr>currentPlayer := Some n\<rparr>, \<lparr>st = s, sent = [(w, LoginError PseudoTaken)], exc = None\<rparr>)"
  by (simp add: login_guest_def)

lemma login_password_no_name_check:
  "map_of (players (st (snd (login_password w c (Resolved r) s)))) (res_username r) =
     Some \<lparr>ws = w, choice = None\<rparr> \<and>
   hd (sent (snd (login_password w c (Resolved r) s))) =
     (w, LoginSuccess (Some (res_username r)) (Some (res_token r)))"
  by (simp add: login_password_def Let_def update_conv')

lemma login_token_no_name_check:
  "map_of (players (st (snd (login_token w c t (Resolved r) s)))) (res_username r) =
     Some \<lparr>ws = w, choice = None\<rparr> \<and>
   hd (sent (snd (login_token w c t (Resolved r) s))) =
     (w, LoginSuccess (Some (res_username r)) None)"
  by (simp add: login_token_def Let_def update_conv')

text \<open>
  C2 at a failing input: alice is registered on socket 1 with a pending choice. A
  password login, or a token login, that authenticates as alice on socket 2 is accepted:
  the registry entry of alice is replaced (socket 2, pending choice gone) and
  \<^verbatim>\<open>login_success\<close> is sent. Only the guest login with the name alice is rejected
  with the name-conflict error and leaves the registry as it was.
\<close>

theorem registered_name_login_overwrites:
  "map_of (players alice_online) ''alice'' = Some \<lparr>ws = 1, choice = Some ''pierre''\<rparr> \<and>
   snd (login 2 \<lparr>currentPlayer = None, currentUserId = None, currentToken = None\<rparr>
          \<lparr>d_token = None, d_username = ''alice'', d_password = Some ''secret''\<rparr>
          (Resolved \<lparr>res_userId = ''u1'', res_username = ''alice'', res_token = ''t1''\<rparr>)
          alice_online) =
     \<lparr>st = alice_online
             \<lparr>players := [(''alice'', \<lparr>ws = 2, choice = None\<rparr>)],
              authenticatedUsers := [(''alice'', \<lparr>userId = ''u1'', token = ''t1'', sock = 2\<rparr>)]\<rparr>,
      sent = [(2, LoginSuccess (Some ''alice'') (Some ''t1'')), (2, OnlineCount 1), (2, Ranking)],
      exc = None\<rparr> \<and>
   snd (login 2 \<lparr>currentPlayer = None, currentUserId = None, currentToken = None\<rparr>
          \<lparr>d_token = Some ''t1'', d_username = [], d_password = None\<rparr>
          (Resolved \<lparr>res_userId = ''u1'', res_username = ''alice'', res_token = []\<rparr>)
          alice_online) =
     \<lparr>st = alice_online
             \<lparr>players := [(''alice'', \<lparr>ws = 2, choice = None\<rparr>)],
              authenticatedUsers := [(''alice'', \<lparr>userId = ''u1'', token = ''t1'', sock = 2\<rparr>)]\<rparr>,
      sent = [(2, LoginSuccess (Some ''alice'') None), (2, OnlineCount 1), (2, Ranking)],
      exc = None\<rparr> \<and>
   snd (login 2 \<lparr>currentPlayer = None, currentUserId = None, currentToken = None\<rparr>
          \<lparr>d_token = None, d_username = ''alice'', d_password = None\<rparr>
          (Rejected [])
          alice_online) =
     \<lparr>st = alice_online, sent = [(2, LoginError PseudoTaken)], exc = None\<rparr>"
  by (simp add: login_def login_password_def login_token_def login_guest_def has_def
        truthy_def truthy_opt_def broadcastOnlineCount_def broadcastRanking_def Let_def
        alice_online_def)

section \<open>Invariants of runs\<close>

text \<open>
  Every handler keeps a well-formed state well-formed, so every state a run reaches
  from the initial state has a queue without duplicates and no participant matched with
  themselves. A lobby that has its guest stays as it is until it is deleted, as long as
  no lobby is created under its identifier again.
\<close>

lemma set_update_subset: "set (AList.update k v al) \<subseteq> insert (k, v) (set al)"
  by (induction al) auto

lemma filter_lookup_absent:
  assumes "map_of xs k = None"
  shows "map_of (filter P xs) k = None"
  using assms by (induction xs) (auto split: if_splits)

lemma filter_lookup_present:
  assumes "map_of xs k = Some v" and "distinct (map fst xs)"
  shows "map_of (filter P xs) k = (if P (k, v) then Some v else None)"
  using assms
proof (induction xs)
  case Nil
  then show ?case by simp
next
  case (Cons x xs)
  show ?case
  proof (cases "fst x = k")
    case True
    then have "map_of xs k = None"
      using Cons.prems(2) by (simp add: map_of_eq_None_iff)
    then have "map_of (filter P xs) k = None"
      by (rule filter_lookup_absent)
    then show ?thesis using True Cons.prems(1) by (cases x) auto
  next
    case False
    then show ?thesis using Cons by (cases x) auto
  qed
qed

lemma handlers_keep_queue:
  "quickMatchQueue (st (snd (login w cn d auth s))) = quickMatchQueue s"
  "quickMatchQueue (st (select_mode p md s)) = quickMatchQueue s"
  "quickMatchQueue (st (create_private_game p gid s)) = quickMatchQueue s"
  "quickMatchQueue (st (join_private_game p gid s)) = quickMatchQueue s"
  "quickMatchQueue (st (play_online p ch s)) = quickMatchQueue s"
  "quickMatchQueue (st (ready_for_next_round p v s)) = quickMatchQueue s"
proof -
  show "quickMatchQueue (st (snd (login w cn d auth s))) = quickMatchQueue s"
    by (simp add: login_def login_token_def login_password_def login_guest_def Let_def
          split: option.splits auth_result.splits)
  show "quickMatchQueue (st (select_mode p md s)) = quickMatchQueue s"
    by (simp add: select_mode_def returns_def)
  show "quickMatchQueue (st (create_private_game p gid s)) = quickMatchQueue s"
    by (simp add: create_private_game_def Let_def split: option.splits)
  show "quickMatchQueue (st (join_private_game p gid s)) = quickMatchQueue s"
    by (simp add: join_private_game_def send_error_def Let_def split: option.splits)
  show "quickMatchQueue (st (play_online p ch s)) = quickMatchQueue s"
    by (simp add: play_online_def resolve_round_def returns_def increment_score_def Let_def
          split: option.splits)
  show "quickMatchQueue (st (ready_for_next_round p v s)) = quickMatchQueue s"
    by (simp add: ready_for_next_round_def returns_def Let_def split: option.splits)
qed

lemma handlers_keep_privateGames:
  "privateGames (st (snd (login w cn d auth s))) = privateGames s"
  "privateGames (st (select_mode p md s)) = privateGames s"
  "privateGames (st (quick_match p s)) = privateGames s"
  "privateGames (st (play_online p ch s)) = privateGames s"
  "privateGames (st (ready_for_next_round p v s)) = privateGames s"
proof -
  show "privateGames (st (snd (login w cn d auth s))) = privateGames s"
    by (simp add: login_def login_token_def login_password_def login_guest_def Let_def
          split: option.splits auth_result.splits)
  show "privateGames (st (select_mode p md s)) = privateGames s"
    by (simp add: select_mode_def returns_def)
  show "privateGames (st (quick_match p s)) = privateGames s"
    by (simp add: quick_match_def matchQuickPlayers_def matchLoop_char [OF refl])
  show "privateGames (st (play_online p ch s)) = privateGames s"
    by (simp add: play_online_def resolve_round_def returns_def increment_score_def Let_def
          split: option.splits)
  show "privateGames (st (ready_for_next_round p v s)) = privateGames s"
    by (simp add: ready_for_next_round_def returns_def Let_def split: option.splits)
qed

lemma create_private_game_privateGames:
  "privateGames (st (create_private_game p gid s)) =
     AList.update gid \<lparr>host = p, guest = None\<rparr> (privateGames s)"
  by (simp add: create_private_game_def Let_def split: option.splits)

lemma join_private_game_privateGames:
  "privateGames (st (join_private_game p gid s)) =
     (case map_of (privateGames s) gid of
        None \<Rightarrow> privateGames s
      | Some g \<Rightarrow>
          if host g = p \<or> truthy_opt (guest g) then privateGames s
          else AList.update gid (g\<lparr>guest := Some p\<rparr>) (privateGames s))"
  by (simp add: join_private_game_def send_error_def Let_def split: option.splits)

lemma on_close_fields:
  "privateGames (st (on_close c s)) =
     (case c of
        None \<Rightarrow> privateGames s
      | Some cur \<Rightarrow>
          if truthy cur then filter (\<lambda>(gameId, g). host g \<noteq> cur) (privateGames s)
          else privateGames s)"
  "quickMatchQueue (st (on_close c s)) =
     (case c of
        None \<Rightarrow> quickMatchQueue s
      | Some cur \<Rightarrow> if truthy cur then remove1 cur (quickMatchQueue s) else quickMatchQueue s)"
  "set (matches (st (on_close c s))) \<subseteq> set (matches s)"
proof -
  show "privateGames (st (on_close c s)) =
     (case c of
        None \<Rightarrow> privateGames s
      | Some cur \<Rightarrow>
          if truthy cur then filter (\<lambda>(gameId, g). host g \<noteq> cur) (privateGames s)
          else privateGames s)"
    by (simp add: on_close_def returns_def Let_def split: option.splits)
  show "quickMatchQueue (st (on_close c s)) =
     (case c of
        None \<Rightarrow> quickMatchQueue s
      | Some cur \<Rightarrow> if truthy cur then remove1 cur (quickMatchQueue s) else quickMatchQueue s)"
    by (simp add: on_close_def returns_def Let_def split: option.splits)
  have "set (matches (removePlayerFromMatch p t)) \<subseteq> set (matches t)" for p and t :: state
    by (auto simp: removePlayerFromMatch_def Let_def AList.delete_eq split: option.splits)
  note sub = this
  show "set (matches (st (on_close c s))) \<subseteq> set (matches s)"
  proof (cases c)
    case None
    then show ?thesis by (simp add: on_close_def returns_def)
  next
    case (Some cur)
    show ?thesis
    proof (cases "truthy cur")
      case False
      then show ?thesis using Some by (simp add: on_close_def returns_def)
    next
      case True
      show ?thesis
        using sub [of cur "s\<lparr>players := AList.delete cur (players s),
                        playerModes := AList.delete cur (playerModes s),
                        playerReadyState := AList.delete cur (playerReadyState s),
                        authenticatedUsers := AList.delete cur (authenticatedUsers s)\<rparr>"]
          Some True
        by (simp add: on_close_state Let_def)
    qed
  qed
qed


lemma leave_game_fields:
  "privateGames (st (leave_game p s)) = filter (\<lambda>(gameId, g). host g \<noteq> p) (privateGames s)"
  "quickMatchQueue (st (leave_game p s)) = remove1 p (quickMatchQueue s)"
  "set (matches (st (leave_game p s))) \<subseteq> set (matches s)"
  by (auto simp: leave_game_def removePlayerFromMatch_def Let_def AList.delete_eq
           split: option.splits)

lemma quick_match_queue:
  "distinct (quickMatchQueue s) \<Longrightarrow> distinct (quickMatchQueue (st (quick_match p s)))"
  by (simp add: quick_match_def matchQuickPlayers_def matchLoop_char [OF refl])

lemma set_match_no_self:
  "a \<noteq> b \<Longrightarrow> list_all (\<lambda>(a, b). a \<noteq> b) m \<Longrightarrow> list_all (\<lambda>(a, b). a \<noteq> b) (set_match a b m)"
proof -
  assume ab: "a \<noteq> b" and m: "list_all (\<lambda>(a, b). a \<noteq> b) m"
  have "set (set_match a b m) \<subseteq> insert (b, a) (insert (a, b) (set m))"
    unfolding set_match_def using set_update_subset [of b a "AList.update a b m"]
      set_update_subset [of a b m] by blast
  then show ?thesis using ab m unfolding list_all_iff by fastforce
qed

lemma formed_pairs_no_self:
  "distinct q \<Longrightarrow> list_all (\<lambda>(a, b). a \<noteq> b) m \<Longrightarrow>
   list_all (\<lambda>(a, b). a \<noteq> b) (foldl (\<lambda>m (a, b). set_match a b m) m (formed_pairs ps q))"
proof (induction q arbitrary: m rule: drawn_pairs.induct)
  case (1 a b q)
  have d: "distinct q" and ab: "a \<noteq> b"
    using "1.prems"(1) by auto
  show ?case
  proof (cases "has ps a \<and> has ps b")
    case False
    then have "formed_pairs ps (a # b # q) = formed_pairs ps q"
      by (simp add: formed_pairs_simps)
    moreover have "list_all (\<lambda>(a, b). a \<noteq> b)
        (foldl (\<lambda>m (a, b). set_match a b m) m (formed_pairs ps q))"
      using d "1.prems"(2) by (rule "1.IH")
    ultimately show ?thesis by simp
  next
    case True
    have "list_all (\<lambda>(a, b). a \<noteq> b) (set_match a b m)"
      using ab "1.prems"(2) by (rule set_match_no_self)
    with d have "list_all (\<lambda>(a, b). a \<noteq> b)
        (foldl (\<lambda>m (a, b). set_match a b m) (set_match a b m) (formed_pairs ps q))"
      by (rule "1.IH")
    then show ?thesis using True by (simp add: formed_pairs_simps)
  qed
qed (simp_all add: formed_pairs_simps)

lemma well_formed_handle:
  assumes "well_formed s"
  shows "well_formed (st (handle e s))"
proof -
  have q: "distinct (quickMatchQueue s)" and g: "distinct (map fst (privateGames s))"
    and m: "list_all (\<lambda>(a, b). a \<noteq> b) (matches s)"
    using assms by (simp_all add: well_formed_def)
  have sub: "set m' \<subseteq> set (matches s) \<Longrightarrow> list_all (\<lambda>(a, b). a \<noteq> b) m'" for m'
    using m unfolding list_all_iff by blast
  show ?thesis
  proof (cases e)
    case (Login w c d auth)
    then show ?thesis
      using q g m
      by (simp add: well_formed_def handlers_keep_queue handlers_keep_privateGames
            handlers_keep_matches)
  next
    case (SelectMode cur mode)
    then show ?thesis
      using q g m
      by (simp add: well_formed_def handlers_keep_queue handlers_keep_privateGames
            handlers_keep_matches)
  next
    case (QuickMatch cur)
    have "distinct (if cur \<in> set (quickMatchQueue s) then quickMatchQueue s
                    else quickMatchQueue s @ [cur])"
      using q by simp
    then have "list_all (\<lambda>(a, b). a \<noteq> b) (matches (st (quick_match cur s)))"
      using m unfolding quick_match_matches by (rule formed_pairs_no_self)
    then show ?thesis
      using QuickMatch q g
      by (simp add: well_formed_def quick_match_queue handlers_keep_privateGames)
  next
    case (CreatePrivateGame cur gameId)
    then show ?thesis
      using q g m
      by (simp add: well_formed_def handlers_keep_queue handlers_keep_matches
            create_private_game_privateGames distinct_update)
  next
    case (JoinPrivateGame cur gameId)
    have "list_all (\<lambda>(a, b). a \<noteq> b) (matches (st (join_private_game cur gameId s)))"
      using m by (auto simp: join_private_game_matches set_match_no_self split: option.splits)
    moreover have "distinct (map fst (privateGames (st (join_private_game cur gameId s))))"
      using g by (auto simp: join_private_game_privateGames distinct_update split: option.splits)
    ultimately show ?thesis
      using JoinPrivateGame q by (simp add: well_formed_def handlers_keep_queue)
  next
    case (PlayOnline cur c)
    then show ?thesis
      using q g m
      by (simp add: well_formed_def handlers_keep_queue handlers_keep_privateGames
            handlers_keep_matches)
  next
    case (ReadyForNextRound cur ready)
    then show ?thesis
      using q g m
      by (simp add: well_formed_def handlers_keep_queue handlers_keep_privateGames
            handlers_keep_matches)
  next
    case (LeaveGame cur)
    then show ?thesis
      using q g sub [OF leave_game_fields(3)]
      by (simp add: well_formed_def leave_game_fields(1,2) distinct_map_filter)
  next
    case (Close c)
    have "distinct (quickMatchQueue (st (on_close c s)))"
      using q by (simp add: on_close_fields(2) split: option.splits)
    moreover have "distinct (map fst (privateGames (st (on_close c s))))"
      using g by (simp add: on_close_fields(1) distinct_map_filter split: option.splits)
    ultimately show ?thesis
      using Close sub [OF on_close_fields(3)] by (simp add: well_formed_def)
  qed
qed

lemma well_formed_run: "well_formed s \<Longrightarrow> well_formed (run es s)"
  by (induction es arbitrary: s) (simp_all add: well_formed_handle)

lemma well_formed_initial: "well_formed initial_state"
  by (simp add: well_formed_def initial_state_def)

lemma well_formed_reachable: "well_formed (run es initial_state)"
  using well_formed_initial by (rule well_formed_run)

lemma well_formed_no_self_match:
  "well_formed s \<Longrightarrow> map_of (matches s) a = Some b \<Longrightarrow> b \<noteq> a"
proof -
  assume w: "well_formed s" and ab: "map_of (matches s) a = Some b"
  then have "(a, b) \<in> set (matches s)" by (simp add: map_of_SomeD)
  then show "b \<noteq> a" using w unfolding well_formed_def list_all_iff by fastforce
qed

lemma lobby_gone_or_handle:
  assumes g: "distinct (map fst (privateGames s))"
    and l: "lobby_gone_or gid L s" and full: "truthy_opt (guest L)"
    and nc: "\<not> creates gid e"
  shows "lobby_gone_or gid L (st (handle e s))"
proof -
  have same: "privateGames t = privateGames s \<Longrightarrow> lobby_gone_or gid L t" for t
    using l by (simp add: lobby_gone_or_def)
  have filt': "lobby_gone_or gid L t" if t: "privateGames t = filter P (privateGames s)" for P t
  proof (cases "map_of (privateGames s) gid")
    case None
    then have "map_of (privateGames t) gid = None"
      unfolding t by (rule filter_lookup_absent)
    then show ?thesis by (simp add: lobby_gone_or_def)
  next
    case (Some v)
    then have "v = L" using l by (simp add: lobby_gone_or_def)
    then have "map_of (privateGames t) gid = (if P (gid, L) then Some L else None)"
      unfolding t using Some g by (simp add: filter_lookup_present)
    then show ?thesis by (simp add: lobby_gone_or_def)
  qed
  show ?thesis
  proof (cases e)
    case (CreatePrivateGame cur gameId)
    then have "gameId \<noteq> gid" using nc by simp
    then show ?thesis
      using l CreatePrivateGame
      by (simp add: lobby_gone_or_def create_private_game_privateGames update_conv')
  next
    case (JoinPrivateGame cur gameId)
    show ?thesis
    proof (cases "gameId = gid")
      case True
      then show ?thesis
        using l full JoinPrivateGame
        by (auto simp: lobby_gone_or_def join_private_game_privateGames split: option.splits)
    next
      case False
      then show ?thesis
        using l JoinPrivateGame
        by (auto simp: lobby_gone_or_def join_private_game_privateGames update_conv'
                 split: option.splits)
    qed
  next
    case (LeaveGame cur)
    then show ?thesis using filt' [OF leave_game_fields(1)] by simp
  next
    case (Close c)
    show ?thesis
    proof (cases "privateGames (st (on_close c s)) = privateGames s")
      case True
      then show ?thesis using Close same by simp
    next
      case False
      then obtain cur where "privateGames (st (on_close c s)) =
          filter (\<lambda>(gameId, g). host g \<noteq> cur) (privateGames s)"
        by (auto simp: on_close_fields(1) split: option.splits if_splits)
      then show ?thesis using Close filt' by simp
    qed
  qed (simp_all add: same handlers_keep_privateGames)
qed

lemma lobby_gone_or_run:
  "well_formed s \<Longrightarrow> lobby_gone_or gid L s \<Longrightarrow> truthy_opt (guest L) \<Longrightarrow>
   list_all (\<lambda>e. \<not> creates gid e) es \<Longrightarrow> lobby_gone_or gid L (run es s)"
proof (induction es arbitrary: s)
  case Nil
  then show ?case by simp
next
  case (Cons e es)
  have "well_formed (st (handle e s))"
    using Cons.prems(1) by (rule well_formed_handle)
  moreover have "lobby_gone_or gid L (st (handle e s))"
    using Cons.prems by (intro lobby_gone_or_handle) (simp_all add: well_formed_def)
  ultimately show ?case
    using Cons.IH [of "st (handle e s)"] Cons.prems by simp
qed

section \<open>The example states are reachable\<close>

text \<open>
  Each example state but \<open>long_queue\<close> and \<open>score_at_limit\<close> is what the handlers
  leave after a few messages from the initial state.
\<close>

lemma handle_guest_login:
  "st (handle (guest_login w n) s) =
     (if has (players s) n then s
      else s\<lparr>players := AList.update n \<lparr>ws = w, choice = None\<rparr> (players s),
             db_players := (if map_of (db_players s) n = None then db_players s @ [(n, 0)]
                            else db_players s)\<rparr>)"
  by (simp add: guest_login_def login_def login_guest_def truthy_opt_def Let_def)

lemma example_states_reachable:
  "run [guest_login 1 ''alice'', guest_login 2 ''bob'', QuickMatch ''alice'', QuickMatch ''bob'']
     initial_state = alice_bob_matched"
  "run [PlayOnline ''bob'' ''ciseaux''] alice_bob_matched = bob_has_chosen"
  "run [guest_login 1 ''alice'', guest_login 2 ''bob'', guest_login 3 ''carol'',
        CreatePrivateGame ''alice'' ''g1''] initial_state = lobby_open"
  "run [QuickMatch ''alice'', QuickMatch ''bob''] lobby_open = host_already_matched"
  "run [QuickMatch ''alice''] lobby_open = lobby_open\<lparr>quickMatchQueue := [''alice'']\<rparr>"
  "run [guest_login 1 ''alice'', QuickMatch ''alice''] initial_state = alice_waiting"
  "run [guest_login 1 ''alice'', PlayOnline ''alice'' ''pierre''] initial_state = alice_online"
  "run [guest_login 1 ''alice'', guest_login 2 [], QuickMatch ''alice'', QuickMatch [],
        PlayOnline [] ''ciseaux''] initial_state = nameless_opponent"
proof -
  show "run [guest_login 1 ''alice'', guest_login 2 ''bob'', QuickMatch ''alice'', QuickMatch ''bob'']
     initial_state = alice_bob_matched"
    by (simp add: handle_guest_login has_def quick_match_def matchQuickPlayers_def
          set_match_def set_ready_false_def initial_state_def alice_bob_matched_def)
  show "run [PlayOnline ''bob'' ''ciseaux''] alice_bob_matched = bob_has_chosen"
    by (simp add: play_online_def returns_def valid_choices_def truthy_def
          alice_bob_matched_def bob_has_chosen_def)
  show "run [guest_login 1 ''alice'', guest_login 2 ''bob'', guest_login 3 ''carol'',
        CreatePrivateGame ''alice'' ''g1''] initial_state = lobby_open"
    by (simp add: handle_guest_login has_def create_private_game_def
          initial_state_def lobby_open_def)
  show "run [QuickMatch ''alice'', QuickMatch ''bob''] lobby_open = host_already_matched"
    by (simp add: quick_match_def matchQuickPlayers_def set_match_def set_ready_false_def
          lobby_open_def host_already_matched_def)
  show "run [QuickMatch ''alice''] lobby_open = lobby_open\<lparr>quickMatchQueue := [''alice'']\<rparr>"
    by (simp add: quick_match_def matchQuickPlayers_def lobby_open_def)
  show "run [guest_login 1 ''alice'', QuickMatch ''alice''] initial_state = alice_waiting"
    by (simp add: handle_guest_login has_def quick_match_def matchQuickPlayers_def
          initial_state_def alice_waiting_def)
  show "run [guest_login 1 ''alice'', PlayOnline ''alice'' ''pierre''] initial_state = alice_online"
    by (simp add: handle_guest_login has_def play_online_def returns_def valid_choices_def
          initial_state_def alice_online_def)
  show "run [guest_login 1 ''alice'', guest_login 2 [], QuickMatch ''alice'', QuickMatch [],
        PlayOnline [] ''ciseaux''] initial_state = nameless_opponent"
    by (simp add: handle_guest_login has_def quick_match_def matchQuickPlayers_def
          set_match_def set_ready_false_def play_online_def returns_def valid_choices_def
          truthy_def initial_state_def nameless_opponent_def)
qed

text \<open>
  A round that alice wins against bob raises the score of alice by one while it is below
  \<open>2 ^ 63\<close> and leaves the rest of the state as it was, so after \<open>2 ^ 63\<close> such rounds
  and one more submission of bob the state is \<open>score_at_limit\<close>.
\<close>

lemma run_append: "run (es @ fs) s = run fs (run es s)"
  by (induction es arbitrary: s) simp_all

lemma won_round:
  assumes "0 \<le> k" and "k < 2 ^ 63"
  shows "run [PlayOnline ''bob'' ''ciseaux'', PlayOnline ''alice'' ''pierre'']
           (alice_bob_matched\<lparr>db_players := [(''alice'', k), (''bob'', 0)]\<rparr>) =
         alice_bob_matched\<lparr>db_players := [(''alice'', k + 1), (''bob'', 0)]\<rparr>"
  using assms
  by (simp add: play_online_def resolve_round_def returns_def valid_choices_def truthy_def
        Let_def getResult_def increment_score_def sqlite_add_one_def alice_bob_matched_def)

lemma scores_reachable:
  "int n \<le> 2 ^ 63 \<Longrightarrow>
     \<exists>es. run es initial_state =
            alice_bob_matched\<lparr>db_players := [(''alice'', int n), (''bob'', 0)]\<rparr>"
proof (induction n)
  case 0
  have e: "alice_bob_matched\<lparr>db_players := [(''alice'', int 0), (''bob'', 0)]\<rparr> =
           alice_bob_matched"
    by (simp add: alice_bob_matched_def)
  show ?case
    unfolding e using example_states_reachable(1) by blast
next
  case (Suc n)
  then obtain es where es: "run es initial_state =
      alice_bob_matched\<lparr>db_players := [(''alice'', int n), (''bob'', 0)]\<rparr>"
    by auto
  have k: "0 \<le> int n" "int n < 2 ^ 63"
    using Suc.prems by simp_all
  have "run (es @ [PlayOnline ''bob'' ''ciseaux'', PlayOnline ''alice'' ''pierre''])
          initial_state =
        alice_bob_matched\<lparr>db_players := [(''alice'', int (Suc n)), (''bob'', 0)]\<rparr>"
    using won_round [OF k] by (simp add: run_append es add.commute)
  then show ?case by blast
qed

lemma score_at_limit_reachable: "\<exists>es. run es initial_state = score_at_limit"
proof -
  have "int (2 ^ 63) \<le> 2 ^ 63"
    by simp
  then obtain es where es: "run es initial_state =
      alice_bob_matched\<lparr>db_players := [(''alice'', int (2 ^ 63)), (''bob'', 0)]\<rparr>"
    using scores_reachable by blast
  have "run (es @ [PlayOnline ''bob'' ''ciseaux'']) initial_state = score_at_limit"
    by (simp add: run_append es play_online_def returns_def valid_choices_def truthy_def
          Let_def alice_bob_matched_def bob_has_chosen_def score_at_limit_def)
  then show ?thesis by blast
qed

section \<open>Joining a private lobby\<close>

text \<open>
  C7, as the code has it: for a registered joiner the rules are checked in this order
  and the first failure is returned with the state unchanged: an unknown identifier
  gives the "no such game" error; otherwise the host joining its own lobby gives the
  "own game" error; otherwise a lobby with a guest gives the "game full" error. After a
  successful join (by a joiner whose name is not empty, host and joiner registered) the
  lobby holds that guest, and after any later events that do not create a lobby under
  the same identifier again the lobby is deleted or still holds that guest; every later
  join attempt on the identifier changes nothing and, from a registered participant,
  is answered with "no such game" when the lobby is deleted, with "own game" when the
  host itself tries, and with "game full" otherwise. No second guest is assigned.
\<close>

theorem join_private_game_rules:
  assumes me: "map_of (players s) cur = Some me"
  shows "(map_of (privateGames s) gid = None \<longrightarrow>
            join_private_game cur gid s =
              \<lparr>st = s, sent = [(ws me, ErrorMsg NoSuchGame)], exc = None\<rparr>) \<and>
         (map_of (privateGames s) gid = Some g \<and> host g = cur \<longrightarrow>
            join_private_game cur gid s =
              \<lparr>st = s, sent = [(ws me, ErrorMsg OwnGame)], exc = None\<rparr>) \<and>
         (map_of (privateGames s) gid = Some g \<and> host g \<noteq> cur \<and> truthy_opt (guest g) \<longrightarrow>
            join_private_game cur gid s =
              \<lparr>st = s, sent = [(ws me, ErrorMsg GameFull)], exc = None\<rparr>) \<and>
         (map_of (privateGames s) gid = Some g \<and> host g \<noteq> cur \<and> \<not> truthy_opt (guest g) \<and>
          truthy cur \<and> map_of (players s) (host g) = Some h \<and>
          well_formed s \<and> list_all (\<lambda>e. \<not> creates gid e) es \<longrightarrow>
            (let r1 = join_private_game cur gid s;
                 s2 = run es (st r1);
                 r2 = join_private_game cur2 gid s2
             in exc r1 = None \<and>
                sent r1 = [(ws h, GameJoined cur), (ws me, GameJoined (host g))] \<and>
                map_of (privateGames (st r1)) gid = Some (g\<lparr>guest := Some cur\<rparr>) \<and>
                lobby_gone_or gid (g\<lparr>guest := Some cur\<rparr>) s2 \<and>
                st r2 = s2 \<and>
                (\<forall>me2. map_of (players s2) cur2 = Some me2 \<longrightarrow>
                   r2 = \<lparr>st = s2,
                         sent = [(ws me2,
                                  ErrorMsg (case map_of (privateGames s2) gid of
                                              None \<Rightarrow> NoSuchGame
                                            | Some g2 \<Rightarrow>
                                                if cur2 = host g then OwnGame else GameFull))],
                         exc = None\<rparr>)))"
proof (intro conjI impI)
  assume "map_of (privateGames s) gid = None"
  then show "join_private_game cur gid s =
              \<lparr>st = s, sent = [(ws me, ErrorMsg NoSuchGame)], exc = None\<rparr>"
    using me by (simp add: join_private_game_def send_error_def)
next
  assume "map_of (privateGames s) gid = Some g \<and> host g = cur"
  then show "join_private_game cur gid s =
              \<lparr>st = s, sent = [(ws me, ErrorMsg OwnGame)], exc = None\<rparr>"
    using me by (simp add: join_private_game_def send_error_def)
next
  assume "map_of (privateGames s) gid = Some g \<and> host g \<noteq> cur \<and> truthy_opt (guest g)"
  then show "join_private_game cur gid s =
              \<lparr>st = s, sent = [(ws me, ErrorMsg GameFull)], exc = None\<rparr>"
    using me by (simp add: join_private_game_def send_error_def)
next
  assume a: "map_of (privateGames s) gid = Some g \<and> host g \<noteq> cur \<and> \<not> truthy_opt (guest g) \<and>
            truthy cur \<and> map_of (players s) (host g) = Some h \<and>
            well_formed s \<and> list_all (\<lambda>e. \<not> creates gid e) es"
  define L where "L = g\<lparr>guest := Some cur\<rparr>"
  define s1 where "s1 = s\<lparr>privateGames := AList.update gid L (privateGames s),
                       matches := set_match (host g) cur (matches s),
                       playerReadyState :=
                         set_ready_false (host g) cur (playerReadyState s)\<rparr>"
  define s2 where "s2 = run es s1"
  have r1: "join_private_game cur gid s =
              \<lparr>st = s1, sent = [(ws h, GameJoined cur), (ws me, GameJoined (host g))], exc = None\<rparr>"
    using a me by (simp add: join_private_game_def s1_def L_def)
  have pg: "map_of (privateGames s1) gid = Some L"
    by (simp add: s1_def update_conv')
  have L: "truthy_opt (guest L)" "host L = host g"
    using a by (simp_all add: L_def truthy_opt_def)
  have "well_formed (st (handle (JoinPrivateGame cur gid) s))"
    using a by (intro well_formed_handle) simp
  then have wf: "well_formed s1" by (simp add: r1)
  have "lobby_gone_or gid L s1"
    using pg by (simp add: lobby_gone_or_def)
  then have gone: "lobby_gone_or gid L s2"
    unfolding s2_def using wf L(1) a by (intro lobby_gone_or_run) simp_all
  have r2: "join_private_game cur2 gid s2 =
              send_error cur2
                (case map_of (privateGames s2) gid of
                   None \<Rightarrow> NoSuchGame
                 | Some g2 \<Rightarrow> if cur2 = host g then OwnGame else GameFull) s2"
    using gone L by (auto simp: join_private_game_def lobby_gone_or_def split: option.splits)
  have st2: "st (join_private_game cur2 gid s2) = s2"
    by (simp add: r2 send_error_def split: option.splits)
  have reg: "map_of (players s2) cur2 = Some me2 \<longrightarrow>
             join_private_game cur2 gid s2 =
               \<lparr>st = s2,
                sent = [(ws me2,
                         ErrorMsg (case map_of (privateGames s2) gid of
                                     None \<Rightarrow> NoSuchGame
                                   | Some g2 \<Rightarrow> if cur2 = host g then OwnGame else GameFull))],
                exc = None\<rparr>" for me2
    by (simp add: r2 send_error_def)
  show "(let r1 = join_private_game cur gid s;
                 s2 = run es (st r1);
                 r2 = join_private_game cur2 gid s2
             in exc r1 = None \<and>
                sent r1 = [(ws h, GameJoined cur), (ws me, GameJoined (host g))] \<and>
                map_of (privateGames (st r1)) gid = Some (g\<lparr>guest := Some cur\<rparr>) \<and>
                lobby_gone_or gid (g\<lparr>guest := Some cur\<rparr>) s2 \<and>
                st r2 = s2 \<and>
                (\<forall>me2. map_of (players s2) cur2 = Some me2 \<longrightarrow>
                   r2 = \<lparr>st = s2,
                         sent = [(ws me2,
                                  ErrorMsg (case map_of (privateGames s2) gid of
                                              None \<Rightarrow> NoSuchGame
                                            | Some g2 \<Rightarrow>
                                                if cur2 = host g then OwnGame else GameFull))],
                         exc = None\<rparr>))"
    using pg gone st2 reg unfolding Let_def r1 reply.simps s2_def [symmetric] L_def [symmetric]
    by blast
qed

text \<open>
  C7 as stated fails: bob joins alice's lobby \<open>g1\<close>; when alice, the host, then tries
  to join \<open>g1\<close> too, the attempt fails with the "own game" error, which is
  neither "no such game" nor "game full".
\<close>

theorem host_retry_gets_own_game:
  "exc (join_private_game ''bob'' ''g1'' lobby_open) = None \<and>
   sent (join_private_game ''bob'' ''g1'' lobby_open) =
     [(1, GameJoined ''bob''), (2, GameJoined ''alice'')] \<and>
   sent (join_private_game ''alice'' ''g1'' (st (join_private_game ''bob'' ''g1'' lobby_open))) =
     [(1, ErrorMsg OwnGame)]"
  by (simp add: join_private_game_def send_error_def lobby_open_def truthy_opt_def
        set_match_def set_ready_false_def)

theorem join_private_game_rules_witness:
  "join_private_game ''bob'' ''zz'' lobby_open =
     \<lparr>st = lobby_open, sent = [(2, ErrorMsg NoSuchGame)], exc = None\<rparr> \<and>
   join_private_game ''alice'' ''g1'' lobby_open =
     \<lparr>st = lobby_open, sent = [(1, ErrorMsg OwnGame)], exc = None\<rparr> \<and>
   exc (join_private_game ''bob'' ''g1'' lobby_open) = None \<and>
   sent (join_private_game ''bob'' ''g1'' lobby_open) =
     [(1, GameJoined ''bob''), (2, GameJoined ''alice'')] \<and>
   map_of (privateGames (st (join_private_game ''bob'' ''g1'' lobby_open))) ''g1'' =
     Some \<lparr>host = ''alice'', guest = Some ''bob''\<rparr> \<and>
   join_private_game ''carol'' ''g1'' (st (join_private_game ''bob'' ''g1'' lobby_open)) =
     \<lparr>st = st (join_private_game ''bob'' ''g1'' lobby_open),
      sent = [(3, ErrorMsg GameFull)], exc = None\<rparr> \<and>
   join_private_game ''carol'' ''g1''
       (run [PlayOnline ''bob'' ''pierre''] (st (join_private_game ''bob'' ''g1'' lobby_open))) =
     \<lparr>st = run [PlayOnline ''bob'' ''pierre''] (st (join_private_game ''bob'' ''g1'' lobby_open)),
      sent = [(3, ErrorMsg GameFull)], exc = None\<rparr>"
proof -
  define s1 where "s1 = st (join_private_game ''bob'' ''g1'' lobby_open)"
  define s2 where "s2 = run [PlayOnline ''bob'' ''pierre''] s1"
  have a: "map_of (players lobby_open) ''alice'' = Some \<lparr>ws = 1, choice = None\<rparr>"
    and b: "map_of (players lobby_open) ''bob'' = Some \<lparr>ws = 2, choice = None\<rparr>"
    and nz: "map_of (privateGames lobby_open) ''zz'' = None"
    and g1: "map_of (privateGames lobby_open) ''g1'' = Some \<lparr>host = ''alice'', guest = None\<rparr>"
    and wf: "well_formed lobby_open"
    by (simp_all add: lobby_open_def well_formed_def)
  have es: "list_all (\<lambda>e. \<not> creates ''g1'' e) [PlayOnline ''bob'' ''pierre'']"
    by simp
  have one: "join_private_game ''bob'' ''zz'' lobby_open =
               \<lparr>st = lobby_open, sent = [(2, ErrorMsg NoSuchGame)], exc = None\<rparr>"
    using join_private_game_rules [OF b, of "''zz''"] nz by simp
  have two: "join_private_game ''alice'' ''g1'' lobby_open =
               \<lparr>st = lobby_open, sent = [(1, ErrorMsg OwnGame)], exc = None\<rparr>"
    using join_private_game_rules [OF a, of "''g1''" "\<lparr>host = ''alice'', guest = None\<rparr>"] g1
    by simp
  have s1: "s1 = lobby_open
                   \<lparr>privateGames := [(''g1'', \<lparr>host = ''alice'', guest = Some ''bob''\<rparr>)],
                    matches := [(''alice'', ''bob''), (''bob'', ''alice'')],
                    playerReadyState := [(''alice'', False), (''bob'', False)]\<rparr>"
    by (simp add: s1_def join_private_game_def truthy_opt_def set_match_def
          set_ready_false_def lobby_open_def)
  have s2: "map_of (players s2) ''carol'' = Some \<lparr>ws = 3, choice = None\<rparr> \<and>
            map_of (privateGames s2) ''g1'' = Some \<lparr>host = ''alice'', guest = Some ''bob''\<rparr>"
    by (simp add: s2_def s1 play_online_def returns_def valid_choices_def truthy_def
          lobby_open_def)
  have "exc (join_private_game ''bob'' ''g1'' lobby_open) = None \<and>
        sent (join_private_game ''bob'' ''g1'' lobby_open) =
          [(1, GameJoined ''bob''), (2, GameJoined ''alice'')] \<and>
        map_of (privateGames s1) ''g1'' = Some \<lparr>host = ''alice'', guest = Some ''bob''\<rparr> \<and>
        (\<forall>me2. map_of (players s2) ''carol'' = Some me2 \<longrightarrow>
           join_private_game ''carol'' ''g1'' s2 =
             \<lparr>st = s2,
              sent = [(ws me2,
                       ErrorMsg (case map_of (privateGames s2) ''g1'' of
                                   None \<Rightarrow> NoSuchGame
                                 | Some g2 \<Rightarrow> GameFull))],
              exc = None\<rparr>)"
    using join_private_game_rules
            [OF b, of "''g1''" "\<lparr>host = ''alice'', guest = None\<rparr>"
               "\<lparr>ws = 1, choice = None\<rparr>" "[PlayOnline ''bob'' ''pierre'']" "''carol''"]
          g1 a wf es
    unfolding Let_def s1_def [symmetric] s2_def [symmetric]
    by (simp add: truthy_opt_def truthy_def)
  then have three: "exc (join_private_game ''bob'' ''g1'' lobby_open) = None \<and>
        sent (join_private_game ''bob'' ''g1'' lobby_open) =
          [(1, GameJoined ''bob''), (2, GameJoined ''alice'')] \<and>
        map_of (privateGames s1) ''g1'' = Some \<lparr>host = ''alice'', guest = Some ''bob''\<rparr> \<and>
        join_private_game ''carol'' ''g1'' s2 =
          \<lparr>st = s2, sent = [(3, ErrorMsg GameFull)], exc = None\<rparr>"
    using s2 by simp
  have c1: "map_of (players s1) ''carol'' = Some \<lparr>ws = 3, choice = None\<rparr>"
    and f1: "map_of (privateGames s1) ''g1'' = Some \<lparr>host = ''alice'', guest = Some ''bob''\<rparr>"
    by (simp_all add: s1 lobby_open_def)
  have full: "join_private_game ''carol'' ''g1'' s1 =
                \<lparr>st = s1, sent = [(3, ErrorMsg GameFull)], exc = None\<rparr>"
    using join_private_game_rules
            [OF c1, of "''g1''" "\<lparr>host = ''alice'', guest = Some ''bob''\<rparr>"] f1
    by (simp add: truthy_opt_def truthy_def)
  show ?thesis
    using one two three full unfolding s2_def s1_def by blast
qed

end
